theory Spec2Isabelle
  imports Complex_Main "HOL-Library.Sublist"
begin

section \<open>Values, errors and series\<close>

text \<open>
  The analyzer of \<^verbatim>\<open>analyzer_modules.py\<close> works on pandas Series. A Series is
  modelled as the list of its rows, each row a label of the index and a value; the value
  \<open>None\<close> is NaN, the "missing" marker. Labels are integers (a timestamp, or the position
  of a default index). Floating-point arithmetic is idealised: a present value is a real
  number and the four operations are exact.
\<close>

type_synonym label = int
type_synonym val = "real option"
type_synonym series = "(label \<times> val) list"

text \<open>
  The Python values an argument of a call can hold. \<^verbatim>\<open>bool\<close>, a subclass of
  \<^verbatim>\<open>int\<close>, is left out of the model.
\<close>

datatype pyval = PyInt int | PyFloat real | PyNone | PyStr string

type_synonym kwargs = "(string \<times> pyval) list"

text \<open>
  The exceptions of the model. The two \<^verbatim>\<open>ValueError\<close>s raised by
  \<^verbatim>\<open>validate_args\<close> are told apart from the \<^verbatim>\<open>ValueError\<close> that pandas
  raises and from the \<^verbatim>\<open>TypeError\<close> of the interpreter.
\<close>

datatype error =
    ValueError_window_size
  | ValueError_lags
  | ValueError_pandas
  | TypeError
  | IndexError

type_synonym 'r result = "error + 'r"

definition index_of :: "series \<Rightarrow> label list" where
  "index_of s = map fst s"

definition values_of :: "series \<Rightarrow> val list" where
  "values_of s = map snd s"

definition isnull :: "val \<Rightarrow> bool" where
  "isnull v = (v = None)"

text \<open>\<^verbatim>\<open>s.dropna()\<close>: the rows whose value is present.\<close>

definition dropna :: "series \<Rightarrow> series" where
  "dropna s = filter (\<lambda>row. \<not> isnull (snd row)) s"

text \<open>\<^verbatim>\<open>s.isnull().all()\<close>: true of the empty series.\<close>

definition isnull_all :: "series \<Rightarrow> bool" where
  "isnull_all s = list_all (\<lambda>row. isnull (snd row)) s"

subsection \<open>Rolling mean\<close>

text \<open>
  \<^verbatim>\<open>s.rolling(window=w).mean()\<close>. The window of position \<open>j\<close> holds the values at
  the positions \<open>j - w + 1 .. j\<close> that exist; \<^verbatim>\<open>min_periods\<close> defaults to \<open>w\<close>, and the
  result is the mean of the present values of the window when there are at least
  \<^verbatim>\<open>min_periods\<close> of them and at least one, NaN otherwise. pandas refuses a window
  that is not an integer or is negative.
\<close>

definition window_at :: "nat \<Rightarrow> val list \<Rightarrow> nat \<Rightarrow> val list" where
  "window_at w vs j = take (min w (Suc j)) (drop (Suc j - w) vs)"

definition roll_mean :: "nat \<Rightarrow> val list \<Rightarrow> val" where
  "roll_mean minp win =
     (let obs = map the (filter (\<lambda>v. \<not> isnull v) win); nobs = length obs
      in if minp \<le> nobs \<and> 0 < nobs then Some (sum_list obs / real nobs) else None)"

definition rolling_mean :: "pyval \<Rightarrow> series \<Rightarrow> series result" where
  "rolling_mean window s =
     (case window of
        PyInt w \<Rightarrow>
          if w < 0 then Inl ValueError_pandas
          else Inr (map (\<lambda>j. (fst (s ! j), roll_mean (nat w) (window_at (nat w) (values_of s) j)))
                        [0..<length s])
      | _ \<Rightarrow> Inl ValueError_pandas)"

text \<open>
  \<^verbatim>\<open>len(self.data) < window_size\<close>: an integer compares with an integer or a float;
  any other right-hand side is a \<^verbatim>\<open>TypeError\<close>.
\<close>

definition len_lt :: "nat \<Rightarrow> pyval \<Rightarrow> bool result" where
  "len_lt n v =
     (case v of
        PyInt w \<Rightarrow> Inr (int n < w)
      | PyFloat f \<Rightarrow> Inr (real n < f)
      | _ \<Rightarrow> Inl TypeError)"

section \<open>The analyzer\<close>

text \<open>
  The attributes of \<^verbatim>\<open>TimeSeriesAnalyzer\<close>. The client handle \<^verbatim>\<open>pytrends\<close> is
  outside the model; what it fetches is a parameter of the constructor.
\<close>

record analyzer =
  keyword :: string
  timeframe :: string
  data :: series
  moving_avg_data :: series

text \<open>
  A method takes \<^verbatim>\<open>self\<close> and returns what the call returns or raises, together
  with \<^verbatim>\<open>self\<close> after the call.
\<close>

type_synonym 'r outcome = "'r result \<times> analyzer"

subsection \<open>Binding of arguments\<close>

text \<open>
  \<^verbatim>\<open>kwargs.get(name, default)\<close>.
\<close>

definition kwargs_get :: "kwargs \<Rightarrow> string \<Rightarrow> pyval \<Rightarrow> pyval" where
  "kwargs_get kw name dflt = (case map_of kw name of None \<Rightarrow> dflt | Some v \<Rightarrow> v)"

text \<open>
  Python's binding of the arguments of a call to a method with no parameter besides
  \<^verbatim>\<open>self\<close>, and to one with a single parameter that has a default. A surplus
  positional argument, an unknown keyword and a parameter given twice are
  \<^verbatim>\<open>TypeError\<close>s.
\<close>

definition bind0 :: "pyval list \<Rightarrow> kwargs \<Rightarrow> unit result" where
  "bind0 args kw = (if args = [] \<and> kw = [] then Inr () else Inl TypeError)"

definition bind1 :: "string \<Rightarrow> pyval \<Rightarrow> pyval list \<Rightarrow> kwargs \<Rightarrow> pyval result" where
  "bind1 name dflt args kw =
     (if list_ex (\<lambda>k. k \<noteq> name) (map fst kw) then Inl TypeError
      else case (args, map_of kw name) of
             ([], None) \<Rightarrow> Inr dflt
           | ([], Some v) \<Rightarrow> Inr v
           | ([v], None) \<Rightarrow> Inr v
           | _ \<Rightarrow> Inl TypeError)"

subsection \<open>The decorator\<close>

text \<open>
  \<^verbatim>\<open>validate_args(func)\<close> returns \<^verbatim>\<open>wrapper(*args, **kwargs)\<close>. The wrapper reads
  \<^verbatim>\<open>window_size\<close> or \<^verbatim>\<open>lags\<close> from the keyword arguments only, with the defaults
  7 and 40, raises when the value is not an \<^verbatim>\<open>int\<close> or is not positive, and then
  calls \<^verbatim>\<open>func\<close> with the arguments as they came. The first argument is the name
  \<^verbatim>\<open>func.__name__\<close>; the positional arguments are handed on unread.
\<close>

definition positive_int :: "pyval \<Rightarrow> bool" where
  "positive_int v = (case v of PyInt n \<Rightarrow> 0 < n | _ \<Rightarrow> False)"

definition validate_args ::
  "string \<Rightarrow> (analyzer \<Rightarrow> 'p \<Rightarrow> kwargs \<Rightarrow> 'r outcome) \<Rightarrow>
     analyzer \<Rightarrow> 'p \<Rightarrow> kwargs \<Rightarrow> 'r outcome" where
  "validate_args name func self args kw =
     (if name = ''calculate_moving_average'' then
        (let window_size = kwargs_get kw ''window_size'' (PyInt 7)
         in if \<not> positive_int window_size then (Inl ValueError_window_size, self)
            else func self args kw)
      else if name = ''calculate_auto_correlation'' then
        (let lags = kwargs_get kw ''lags'' (PyInt 40)
         in if \<not> positive_int lags then (Inl ValueError_lags, self)
            else func self args kw)
      else func self args kw)"

subsection \<open>Moving average\<close>

text \<open>
  The undecorated \<^verbatim>\<open>calculate_moving_average(self, window_size=7)\<close>: the empty
  series when the data are shorter than the window, the rolling mean of the data
  otherwise. It assigns no attribute.
\<close>

definition calculate_moving_average_body ::
  "analyzer \<Rightarrow> pyval list \<Rightarrow> kwargs \<Rightarrow> series outcome" where
  "calculate_moving_average_body self args kw =
     (case bind1 ''window_size'' (PyInt 7) args kw of
        Inl e \<Rightarrow> (Inl e, self)
      | Inr window_size \<Rightarrow>
          (case len_lt (length (data self)) window_size of
             Inl e \<Rightarrow> (Inl e, self)
           | Inr True \<Rightarrow> (Inr [], self)
           | Inr False \<Rightarrow> (rolling_mean window_size (data self), self)))"

definition calculate_moving_average ::
  "analyzer \<Rightarrow> pyval list \<Rightarrow> kwargs \<Rightarrow> series outcome" where
  "calculate_moving_average =
     validate_args ''calculate_moving_average'' calculate_moving_average_body"

subsection \<open>Series operations used by the other methods\<close>

text \<open>
  \<^verbatim>\<open>pd.Series(values, index=index)\<close> and the assignment \<^verbatim>\<open>s.index = index\<close>: pandas
  raises a \<^verbatim>\<open>ValueError\<close> when the lengths differ.
\<close>

definition Series :: "val list \<Rightarrow> label list \<Rightarrow> series result" where
  "Series vs idx = (if length vs = length idx then Inr (zip idx vs) else Inl ValueError_pandas)"

definition set_index :: "series \<Rightarrow> label list \<Rightarrow> series result" where
  "set_index s idx =
     (if length s = length idx then Inr (zip idx (values_of s)) else Inl ValueError_pandas)"

text \<open>
  \<^verbatim>\<open>s.shift(periods)\<close>: the values move by \<open>periods\<close> positions, the index stays,
  and the positions left free are NaN.
\<close>

definition shift :: "int \<Rightarrow> series \<Rightarrow> series" where
  "shift periods s =
     (let n = length s; vs = values_of s; k = nat \<bar>periods\<bar>
      in zip (index_of s)
           (if 0 \<le> periods then replicate (min k n) None @ take (n - k) vs
            else drop k vs @ replicate (min k n) None))"

text \<open>
  Arithmetic and comparison of floats: NaN makes a difference NaN and a comparison
  false.
\<close>

definition osub :: "val \<Rightarrow> val \<Rightarrow> val" where
  "osub x y = (case (x, y) of (Some u, Some v) \<Rightarrow> Some (u - v) | _ \<Rightarrow> None)"

definition olt :: "val \<Rightarrow> val \<Rightarrow> bool" where
  "olt x y = (case (x, y) of (Some u, Some v) \<Rightarrow> u < v | _ \<Rightarrow> False)"

text \<open>
  The operations \<^verbatim>\<open>a - b\<close>, \<^verbatim>\<open>a < b\<close>, \<^verbatim>\<open>a > b\<close> and \<^verbatim>\<open>p & q\<close> on two series
  with one and the same index, which is how the analyzer uses them: row by row. The
  selection \<^verbatim>\<open>s[mask]\<close> keeps the rows of \<open>s\<close> where the mask is true.
\<close>

definition series_sub :: "series \<Rightarrow> series \<Rightarrow> series" where
  "series_sub a b = map (\<lambda>(ra, rb). (fst ra, osub (snd ra) (snd rb))) (zip a b)"

definition series_lt :: "series \<Rightarrow> series \<Rightarrow> (label \<times> bool) list" where
  "series_lt a b = map (\<lambda>(ra, rb). (fst ra, olt (snd ra) (snd rb))) (zip a b)"

definition series_gt :: "series \<Rightarrow> series \<Rightarrow> (label \<times> bool) list" where
  "series_gt a b = map (\<lambda>(ra, rb). (fst ra, olt (snd rb) (snd ra))) (zip a b)"

definition mask_and :: "(label \<times> bool) list \<Rightarrow> (label \<times> bool) list \<Rightarrow> (label \<times> bool) list" where
  "mask_and p q = map (\<lambda>(rp, rq). (fst rp, snd rp \<and> snd rq)) (zip p q)"

definition select :: "series \<Rightarrow> (label \<times> bool) list \<Rightarrow> series" where
  "select s keep = map fst (filter (\<lambda>(row, k). snd k) (zip s keep))"

text \<open>\<^verbatim>\<open>s.diff()\<close>: each value minus the one before it.\<close>

definition diff :: "series \<Rightarrow> series" where
  "diff s = series_sub s (shift 1 s)"

subsection \<open>Differential\<close>

definition calculate_differential_body ::
  "analyzer \<Rightarrow> pyval list \<Rightarrow> kwargs \<Rightarrow> series outcome" where
  "calculate_differential_body self args kw =
     (case bind0 args kw of
        Inl e \<Rightarrow> (Inl e, self)
      | Inr _ \<Rightarrow> (Inr (diff (moving_avg_data self)), self))"

definition calculate_differential ::
  "analyzer \<Rightarrow> pyval list \<Rightarrow> kwargs \<Rightarrow> series outcome" where
  "calculate_differential =
     validate_args ''calculate_differential'' calculate_differential_body"

subsection \<open>Autocorrelation\<close>

text \<open>
  The slice \<^verbatim>\<open>xs[:stop]\<close> of Python: a negative \<open>stop\<close> counts from the end.
\<close>

definition py_slice_to :: "int \<Rightarrow> 'a list \<Rightarrow> 'a list" where
  "py_slice_to stop xs =
     (if 0 \<le> stop then take (nat stop) xs else take (length xs - nat (- stop)) xs)"

text \<open>
  \<^verbatim>\<open>statsmodels.tsa.stattools.acf(x, nlags=nlags)\<close>. The autocovariance of the demeaned
  sample at the lags \<open>0 .. n - 1\<close>, cut to its first \<open>nlags + 1\<close> entries and divided by
  the entry of lag 0. The division of zero by zero is NaN; no other division by zero
  occurs, since a sample whose autocovariance at lag 0 is zero is constant. The empty
  sample has no entry of lag 0.
\<close>

definition mean :: "real list \<Rightarrow> real" where
  "mean x = sum_list x / real (length x)"

definition acovf :: "real list \<Rightarrow> real list" where
  "acovf x =
     (let n = length x; xo = map (\<lambda>v. v - mean x) x
      in map (\<lambda>k. (\<Sum>t\<leftarrow>[k..<n]. xo ! t * xo ! (t - k)) / real n) [0..<n])"

definition fdiv :: "real \<Rightarrow> real \<Rightarrow> val" where
  "fdiv c d = (if d = 0 then None else Some (c / d))"

definition acf :: "real list \<Rightarrow> int \<Rightarrow> val list result" where
  "acf x nlags =
     (case acovf x of
        [] \<Rightarrow> Inl IndexError
      | c0 # cs \<Rightarrow> Inr (map (\<lambda>c. fdiv c c0) (py_slice_to (nlags + 1) (c0 # cs))))"

text \<open>
  \<^verbatim>\<open>calculate_auto_correlation(self, lags=None)\<close> carries no decorator. The parameter
  \<open>lags\<close> is the integer given, or \<open>None\<close> when the argument is left out or is
  \<^verbatim>\<open>None\<close>.
\<close>

definition calculate_auto_correlation :: "analyzer \<Rightarrow> int option \<Rightarrow> series outcome" where
  "calculate_auto_correlation self lags =
     (let m = moving_avg_data self; n = length m
      in if isnull_all m then (Series (replicate n None) (index_of m), self)
         else
           (let valid_data = dropna m;
                lags' = (case lags of None \<Rightarrow> int (length valid_data) - 1 | Some l \<Rightarrow> l)
            in if length valid_data < 2 then (Series (replicate n None) (index_of m), self)
               else
                 (case acf (map the (values_of valid_data)) lags' of
                    Inl e \<Rightarrow> (Inl e, self)
                  | Inr acf_values \<Rightarrow>
                      (let k = int (length (tl acf_values))
                       in (case Series (replicate (nat (int n - k)) None)
                                       (py_slice_to (int n - k) (index_of m)) of
                             Inl e \<Rightarrow> (Inl e, self)
                           | Inr acf_series \<Rightarrow>
                               (case Series (tl acf_values)
                                            (py_slice_to k (index_of valid_data)) of
                                  Inl e \<Rightarrow> (Inl e, self)
                                | Inr coefficients \<Rightarrow>
                                    (set_index (acf_series @ coefficients) (index_of m),
                                     self)))))))"

subsection \<open>Extrema\<close>

definition find_maxima_body :: "analyzer \<Rightarrow> pyval list \<Rightarrow> kwargs \<Rightarrow> series outcome" where
  "find_maxima_body self args kw =
     (case bind0 args kw of
        Inl e \<Rightarrow> (Inl e, self)
      | Inr _ \<Rightarrow>
          (let m = moving_avg_data self
           in (Inr (select m (mask_and (series_lt (shift 1 m) m) (series_lt (shift (- 1) m) m))),
               self)))"

definition find_maxima :: "analyzer \<Rightarrow> pyval list \<Rightarrow> kwargs \<Rightarrow> series outcome" where
  "find_maxima = validate_args ''find_maxima'' find_maxima_body"

definition find_minima_body :: "analyzer \<Rightarrow> pyval list \<Rightarrow> kwargs \<Rightarrow> series outcome" where
  "find_minima_body self args kw =
     (case bind0 args kw of
        Inl e \<Rightarrow> (Inl e, self)
      | Inr _ \<Rightarrow>
          (let m = moving_avg_data self
           in (Inr (select m (mask_and (series_gt (shift 1 m) m) (series_gt (shift (- 1) m) m))),
               self)))"

definition find_minima :: "analyzer \<Rightarrow> pyval list \<Rightarrow> kwargs \<Rightarrow> series outcome" where
  "find_minima = validate_args ''find_minima'' find_minima_body"

subsection \<open>Tables\<close>

text \<open>
  \<^verbatim>\<open>pd.DataFrame({name: series, ...})\<close>. The index of the table is the union of the
  indexes of the columns, taken from left to right: a union with an equal or an empty
  index changes nothing, any other union is sorted. Each column is then laid on that
  index, NaN where the series has no row. The labels of one series are taken to be
  distinct, as timestamps are.
\<close>

record table =
  t_index :: "label list"
  t_columns :: "(string \<times> val list) list"

definition index_union :: "label list \<Rightarrow> label list \<Rightarrow> label list" where
  "index_union a b =
     (if a = b \<or> b = [] then a else if a = [] then b else sort (remdups (a @ b)))"

definition union_indexes :: "label list list \<Rightarrow> label list" where
  "union_indexes idxs = (case idxs of [] \<Rightarrow> [] | i # rest \<Rightarrow> foldl index_union i rest)"

definition reindex :: "series \<Rightarrow> label list \<Rightarrow> val list" where
  "reindex s idx = map (\<lambda>l. case map_of s l of None \<Rightarrow> None | Some v \<Rightarrow> v) idx"

definition DataFrame :: "(string \<times> series) list \<Rightarrow> table" where
  "DataFrame cols =
     (let idx = union_indexes (map (\<lambda>(name, s). index_of s) cols)
      in \<lparr>t_index = idx, t_columns = map (\<lambda>(name, s). (name, reindex s idx)) cols\<rparr>)"

text \<open>
  \<^verbatim>\<open>save_to_dataframe(self, result, name)\<close>, called with a series and a column name in
  position.
\<close>

definition save_to_dataframe_body ::
  "analyzer \<Rightarrow> series \<times> string \<Rightarrow> kwargs \<Rightarrow> table outcome" where
  "save_to_dataframe_body self args kw =
     (case args of (result, name) \<Rightarrow> (Inr (DataFrame [(name, result)]), self))"

definition save_to_dataframe :: "analyzer \<Rightarrow> series \<Rightarrow> string \<Rightarrow> table outcome" where
  "save_to_dataframe self result name =
     validate_args ''save_to_dataframe'' save_to_dataframe_body self (result, name) []"

text \<open>An exception of one call ends the method that made the call.\<close>

definition and_then :: "'a outcome \<Rightarrow> ('a \<Rightarrow> analyzer \<Rightarrow> 'b outcome) \<Rightarrow> 'b outcome" where
  "and_then r f = (case r of (Inl e, self) \<Rightarrow> (Inl e, self) | (Inr v, self) \<Rightarrow> f v self)"

definition get_results :: "analyzer \<Rightarrow> table outcome" where
  "get_results self =
     and_then (calculate_moving_average self [] []) (\<lambda>moving_avg self.
     and_then (calculate_differential self [] []) (\<lambda>differential self.
     and_then (calculate_auto_correlation self None) (\<lambda>auto_correlation self.
     and_then (find_maxima self [] []) (\<lambda>maxima self.
     and_then (find_minima self [] []) (\<lambda>minima self.
       (Inr (DataFrame
          [(''Moving Average'', moving_avg),
           (''Differential'', differential),
           (''Auto correlation'', auto_correlation),
           (''Maxima'', maxima),
           (''Minima'', minima)]), self))))))"

subsection \<open>Construction\<close>

text \<open>
  \<^verbatim>\<open>_load_data\<close> asks the trends service for the column of the keyword and drops its
  missing rows; the column fetched is the parameter \<open>fetched\<close>. The constructor then stores
  the moving average of the default window. Until that assignment the attribute
  \<^verbatim>\<open>moving_avg_data\<close> does not exist; the record holds the empty series in its place.
\<close>

definition load_data :: "series \<Rightarrow> series" where
  "load_data fetched = dropna fetched"

definition TimeSeriesAnalyzer_init :: "string \<Rightarrow> string \<Rightarrow> series \<Rightarrow> analyzer result" where
  "TimeSeriesAnalyzer_init kwd tf fetched =
     (let self = \<lparr>keyword = kwd, timeframe = tf, data = load_data fetched, moving_avg_data = []\<rparr>
      in case calculate_moving_average self [] [] of
           (Inl e, self) \<Rightarrow> Inl e
         | (Inr s, self) \<Rightarrow> Inr (self\<lparr>moving_avg_data := s\<rparr>))"

subsection \<open>Sequences of calls\<close>

text \<open>The calls a client can make on a constructed analyzer, and the analyzer after them.\<close>

datatype method_call =
    Call_calculate_moving_average "pyval list" kwargs
  | Call_calculate_differential "pyval list" kwargs
  | Call_calculate_auto_correlation "int option"
  | Call_find_maxima "pyval list" kwargs
  | Call_find_minima "pyval list" kwargs
  | Call_save_to_dataframe series string
  | Call_get_results

fun after_call :: "analyzer \<Rightarrow> method_call \<Rightarrow> analyzer" where
  "after_call self (Call_calculate_moving_average args kw) =
     snd (calculate_moving_average self args kw)"
| "after_call self (Call_calculate_differential args kw) =
     snd (calculate_differential self args kw)"
| "after_call self (Call_calculate_auto_correlation lags) =
     snd (calculate_auto_correlation self lags)"
| "after_call self (Call_find_maxima args kw) = snd (find_maxima self args kw)"
| "after_call self (Call_find_minima args kw) = snd (find_minima self args kw)"
| "after_call self (Call_save_to_dataframe result name) =
     snd (save_to_dataframe self result name)"
| "after_call self Call_get_results = snd (get_results self)"

definition after_calls :: "analyzer \<Rightarrow> method_call list \<Rightarrow> analyzer" where
  "after_calls self calls = foldl after_call self calls"

section \<open>The properties in the words of the specification\<close>

text \<open>
  The trailing window of \<open>w\<close> values that ends at position \<open>i\<close>, and the arithmetic
  mean of a list of values, missing when the list is empty or one of its values is.
\<close>

definition trailing_values :: "series \<Rightarrow> nat \<Rightarrow> nat \<Rightarrow> val list" where
  "trailing_values s w i = map (\<lambda>k. snd (s ! k)) [Suc i - w..<Suc i]"

definition arithmetic_mean :: "val list \<Rightarrow> val" where
  "arithmetic_mean vs =
     (if vs = [] \<or> None \<in> set vs then None
      else Some (sum_list (map the vs) / real (length vs)))"

text \<open>
  The sample autocorrelation at lag \<open>k\<close>:
  \<open>r\<^sub>k = \<Sum>(x\<^sub>t - mean)(x\<^sub>t\<^sub>-\<^sub>k - mean) / \<Sum>(x\<^sub>t - mean)\<^sup>2\<close>, missing when the denominator is zero.
  The number of coefficients the analyzer places for a sample of \<open>v\<close> values, and the
  arguments \<open>lags\<close> that its precondition admits.
\<close>

definition autocorr :: "real list \<Rightarrow> nat \<Rightarrow> val" where
  "autocorr x k =
     (let mu = sum_list x / real (length x);
          den = (\<Sum>t\<leftarrow>[0..<length x]. (x ! t - mu) ^ 2)
      in if den = 0 then None
         else Some ((\<Sum>t\<leftarrow>[k..<length x]. (x ! t - mu) * (x ! (t - k) - mu)) / den))"

definition coefficient_count :: "nat \<Rightarrow> int option \<Rightarrow> nat" where
  "coefficient_count v lags = (case lags of None \<Rightarrow> v - 1 | Some l \<Rightarrow> min (nat l) (v - 1))"

definition valid_lags :: "int option \<Rightarrow> bool" where
  "valid_lags lags = (case lags of None \<Rightarrow> True | Some l \<Rightarrow> 0 < l)"

text \<open>
  A strict local maximum and a strict local minimum of a series at a position that has
  both neighbours, and the rows of a series at the positions that satisfy a predicate.
\<close>

definition strict_local_max :: "series \<Rightarrow> nat \<Rightarrow> bool" where
  "strict_local_max m i =
     (0 < i \<and> i + 1 < length m
      \<and> olt (snd (m ! (i - 1))) (snd (m ! i)) \<and> olt (snd (m ! (i + 1))) (snd (m ! i)))"

definition strict_local_min :: "series \<Rightarrow> nat \<Rightarrow> bool" where
  "strict_local_min m i =
     (0 < i \<and> i + 1 < length m
      \<and> olt (snd (m ! i)) (snd (m ! (i - 1))) \<and> olt (snd (m ! i)) (snd (m ! (i + 1))))"

definition rows_where :: "series \<Rightarrow> (nat \<Rightarrow> bool) \<Rightarrow> series" where
  "rows_where m P = map (\<lambda>i. m ! i) (filter P [0..<length m])"

section \<open>Sample analyzers\<close>

text \<open>
  Three observations, fewer than the default window, and the ten observations
  \<open>1 .. 10\<close> of the test module, each with the moving average the constructor stores.
\<close>

definition three_points :: analyzer where
  "three_points =
     \<lparr>keyword = ''k'', timeframe = ''t'',
      data = [(0, Some 1), (1, Some 2), (2, Some 3)],
      moving_avg_data = []\<rparr>"

definition ten_points :: analyzer where
  "ten_points =
     \<lparr>keyword = ''k'', timeframe = ''t'',
      data = [(0, Some 1), (1, Some 2), (2, Some 3), (3, Some 4), (4, Some 5),
              (5, Some 6), (6, Some 7), (7, Some 8), (8, Some 9), (9, Some 10)],
      moving_avg_data = [(0, None), (1, None), (2, None), (3, None), (4, None), (5, None),
              (6, Some 4), (7, Some 5), (8, Some 6), (9, Some 7)]\<rparr>"

text \<open>
  Ten observations whose moving average rises, falls and rises again, and eight equal
  observations, each with the moving average the constructor stores.
\<close>

definition wave :: analyzer where
  "wave =
     \<lparr>keyword = ''k'', timeframe = ''t'',
      data = [(0, Some 7), (1, Some 14), (2, Some 0), (3, Some 0), (4, Some 0),
              (5, Some 0), (6, Some 0), (7, Some 14), (8, Some 0), (9, Some 7)],
      moving_avg_data = [(0, None), (1, None), (2, None), (3, None), (4, None), (5, None),
              (6, Some 3), (7, Some 4), (8, Some 2), (9, Some 3)]\<rparr>"

definition level :: analyzer where
  "level =
     \<lparr>keyword = ''k'', timeframe = ''t'',
      data = [(0, Some 5), (1, Some 5), (2, Some 5), (3, Some 5), (4, Some 5),
              (5, Some 5), (6, Some 5), (7, Some 5)],
      moving_avg_data = [(0, None), (1, None), (2, None), (3, None), (4, None), (5, None),
              (6, Some 5), (7, Some 5)]\<rparr>"

section \<open>Moving average: validation and result\<close>

text \<open>Each sample analyzer is what the constructor builds from its data.\<close>

lemma sample_analyzers_constructed:
  "TimeSeriesAnalyzer_init ''k'' ''t'' (data three_points) = Inr three_points"
  "TimeSeriesAnalyzer_init ''k'' ''t'' (data ten_points) = Inr ten_points"
  "TimeSeriesAnalyzer_init ''k'' ''t'' (data wave) = Inr wave"
  "TimeSeriesAnalyzer_init ''k'' ''t'' (data level) = Inr level"
  by code_simp+

lemma kwargs_get_bound:
  assumes "bind1 name dflt args kw = Inr v"
  shows "kwargs_get kw name dflt = v \<or> kwargs_get kw name dflt = dflt"
  using assms
  by (auto simp: bind1_def kwargs_get_def split: if_splits list.splits option.splits)

text \<open>
  A call whose window is a positive integer, however it is passed, gets through the
  decorator, and the method returns the empty series or the rolling mean.
\<close>

lemma calculate_moving_average_valid:
  assumes "bind1 ''window_size'' (PyInt 7) args kw = Inr (PyInt w)" and "0 < w"
  shows "calculate_moving_average a args kw =
           (if int (length (data a)) < w then Inr [] else rolling_mean (PyInt w) (data a), a)"
proof -
  have "positive_int (kwargs_get kw ''window_size'' (PyInt 7))"
    using kwargs_get_bound [OF assms(1)] assms(2) by (auto simp: positive_int_def)
  then show ?thesis
    using assms(1)
    by (simp add: calculate_moving_average_def validate_args_def
        calculate_moving_average_body_def len_lt_def)
qed

lemma window_at_trailing:
  assumes "i < length s"
  shows "window_at w (values_of s) i = trailing_values s w i"
proof (rule nth_equalityI)
  show "length (window_at w (values_of s) i) = length (trailing_values s w i)"
    using assms by (auto simp: window_at_def trailing_values_def values_of_def)
next
  fix k assume "k < length (window_at w (values_of s) i)"
  then have k: "k < w" "k < Suc i"
    using assms by (simp_all add: window_at_def values_of_def)
  then have pos: "Suc i - w + k < length s" "k < Suc i - (Suc i - w)"
    using assms by linarith+
  have "window_at w (values_of s) i ! k = snd (s ! (Suc i - w + k))"
    using k pos assms by (simp add: window_at_def values_of_def)
  also have "\<dots> = trailing_values s w i ! k"
    unfolding trailing_values_def using pos(2) by (simp only: nth_map_upt)
  finally show "window_at w (values_of s) i ! k = trailing_values s w i ! k" .
qed

lemma length_window_at:
  "i < length vs \<Longrightarrow> length (window_at w vs i) = min w (Suc i)"
  by (auto simp: window_at_def)

lemma roll_mean_short: "length win < w \<Longrightarrow> roll_mean w win = None"
proof -
  assume a: "length win < w"
  have "length (filter (\<lambda>v. \<not> isnull v) win) \<le> length win" by (rule length_filter_le)
  from this a have "length (filter (\<lambda>v. \<not> isnull v) win) < w" by (rule le_less_trans)
  then show ?thesis by (simp add: roll_mean_def Let_def)
qed

lemma filter_present_all:
  "None \<notin> set win \<Longrightarrow> filter (\<lambda>v. \<not> isnull v) win = win"
  unfolding filter_id_conv isnull_def by metis

lemma filter_present_less:
  "None \<in> set win \<Longrightarrow> length (filter (\<lambda>v. \<not> isnull v) win) < length win"
  by (induction win) (auto simp: isnull_def less_Suc_eq_le)

lemma roll_mean_full:
  assumes "length win = w" and "0 < w"
  shows "roll_mean w win = arithmetic_mean win"
proof (cases "None \<in> set win")
  case True
  then show ?thesis
    using filter_present_less [OF True] assms
    by (simp add: roll_mean_def arithmetic_mean_def Let_def)
next
  case False
  then show ?thesis
    using filter_present_all [OF False] assms
    by (auto simp: roll_mean_def arithmetic_mean_def Let_def)
qed

text \<open>
  A window size given by name that is not a positive integer is refused by the
  decorator, before the method runs.
\<close>

lemma keyword_window_size_validated:
  assumes "map_of kw ''window_size'' = Some v" and "\<not> positive_int v"
  shows "calculate_moving_average a args kw = (Inl ValueError_window_size, a)"
  using assms by (simp add: calculate_moving_average_def validate_args_def kwargs_get_def)

text \<open>
  C1. The claim: a window size that is not a positive integer raises the decorator's
  error before any computation, whether it is passed in position, by name or left out.
  The decorator reads the keyword arguments only. The window 0 passed in position is
  bound to \<open>window_size\<close>, is not a positive integer, and the call returns a series of
  missing values instead of raising.
\<close>

theorem positional_window_size_escapes_validation:
  "bind1 ''window_size'' (PyInt 7) [PyInt 0] [] = Inr (PyInt 0)
   \<and> \<not> positive_int (PyInt 0)
   \<and> fst (calculate_moving_average three_points [PyInt 0] [])
       = Inr [(0, None), (1, None), (2, None)]"
  by (simp add: bind1_def positive_int_def three_points_def calculate_moving_average_def
      validate_args_def kwargs_get_def calculate_moving_average_body_def len_lt_def
      rolling_mean_def roll_mean_def window_at_def values_of_def isnull_def upt_conv_Cons)

text \<open>
  C5, as the claim states it, fails: the output has the length of the input for every
  positive window. With three observations and the window 7 the output is empty.
\<close>

theorem moving_average_length_counterexample:
  "positive_int (PyInt 7)
   \<and> fst (calculate_moving_average three_points [] [(''window_size'', PyInt 7)]) = Inr []
   \<and> length ([] :: series) \<noteq> length (data three_points)"
  by (simp add: positive_int_def three_points_def calculate_moving_average_def
      validate_args_def kwargs_get_def calculate_moving_average_body_def bind1_def len_lt_def)

text \<open>
  C5, amended. For a window that is a positive integer, however passed, and no longer
  than the data: the call returns a series of the length and with the index of the data,
  whose entries before position \<open>window_size - 1\<close> are missing and whose entry at each
  later position is the arithmetic mean of the trailing \<open>window_size\<close> values that end
  there.
\<close>

theorem moving_average_trailing_mean:
  assumes "bind1 ''window_size'' (PyInt 7) args kw = Inr (PyInt w)"
    and "0 < w" and "w \<le> int (length (data a))"
  shows "\<exists>r. fst (calculate_moving_average a args kw) = Inr r
           \<and> length r = length (data a)
           \<and> index_of r = index_of (data a)
           \<and> (\<forall>i. int i < w - 1 \<longrightarrow> snd (r ! i) = None)
           \<and> (\<forall>i. w - 1 \<le> int i \<and> i < length (data a) \<longrightarrow>
                  snd (r ! i) = arithmetic_mean (trailing_values (data a) (nat w) i))"
proof -
  define r where "r = map (\<lambda>j. (fst (data a ! j),
      roll_mean (nat w) (window_at (nat w) (values_of (data a)) j))) [0..<length (data a)]"
  have res: "fst (calculate_moving_average a args kw) = Inr r"
    using calculate_moving_average_valid [OF assms(1,2)] assms(2,3)
    by (simp add: rolling_mean_def r_def)
  have len: "length r = length (data a)" by (simp add: r_def)
  have idx: "index_of r = index_of (data a)"
    by (rule nth_equalityI) (simp_all add: r_def index_of_def)
  have early: "snd (r ! i) = None" if "int i < w - 1" for i
  proof -
    have i: "i < length (data a)" using that assms(3) by linarith
    have "length (window_at (nat w) (values_of (data a)) i) < nat w"
      using that i by (simp add: length_window_at values_of_def)
    then show ?thesis using i by (simp add: r_def roll_mean_short)
  qed
  have late: "snd (r ! i) = arithmetic_mean (trailing_values (data a) (nat w) i)"
    if "w - 1 \<le> int i" and i: "i < length (data a)" for i
  proof -
    have "length (window_at (nat w) (values_of (data a)) i) = nat w"
      using that by (simp add: length_window_at values_of_def min_def)
    then have "roll_mean (nat w) (window_at (nat w) (values_of (data a)) i)
                 = arithmetic_mean (window_at (nat w) (values_of (data a)) i)"
      using assms(2) by (simp add: roll_mean_full)
    then show ?thesis using i by (simp add: r_def window_at_trailing)
  qed
  show ?thesis using res len idx early late by blast
qed

theorem moving_average_trailing_mean_witness:
  "bind1 ''window_size'' (PyInt 7) [] [(''window_size'', PyInt 7)] = Inr (PyInt 7)
   \<and> (0 :: int) < 7
   \<and> 7 \<le> int (length (data ten_points))
   \<and> (\<exists>r. fst (calculate_moving_average ten_points [] [(''window_size'', PyInt 7)]) = Inr r
          \<and> length r = 10
          \<and> (\<forall>i<6. snd (r ! i) = None)
          \<and> snd (r ! 6) = Some 4
          \<and> snd (r ! 9) = Some 7)"
proof -
  have b: "bind1 ''window_size'' (PyInt 7) [] [(''window_size'', PyInt 7)] = Inr (PyInt 7)"
    by (simp add: bind1_def)
  have p: "(0 :: int) < 7" by simp
  have l: "7 \<le> int (length (data ten_points))" by (simp add: ten_points_def)
  have m6: "arithmetic_mean (trailing_values (data ten_points) (nat 7) 6) = Some 4"
    by (simp add: arithmetic_mean_def trailing_values_def ten_points_def upt_conv_Cons)
  have m9: "arithmetic_mean (trailing_values (data ten_points) (nat 7) 9) = Some 7"
    by (simp add: arithmetic_mean_def trailing_values_def ten_points_def upt_conv_Cons)
  have n: "length (data ten_points) = 10" by (simp add: ten_points_def)
  from moving_average_trailing_mean [OF b p l] obtain r where
    r: "fst (calculate_moving_average ten_points [] [(''window_size'', PyInt 7)]) = Inr r"
      "length r = length (data ten_points)"
      "\<forall>i. int i < 7 - 1 \<longrightarrow> snd (r ! i) = None"
      "\<forall>i. 7 - 1 \<le> int i \<and> i < length (data ten_points) \<longrightarrow>
          snd (r ! i) = arithmetic_mean (trailing_values (data ten_points) (nat 7) i)"
    by blast
  have "snd (r ! 6) = Some 4" using r(4) m6 n by simp
  moreover have "snd (r ! 9) = Some 7" using r(4) m9 n by simp
  moreover have "\<forall>i<6. snd (r ! i) = None" using r(3) by simp
  ultimately show ?thesis using b p l r(1,2) n by auto
qed

text \<open>
  C6. When the data are strictly shorter than a positive integer window, however the
  window is passed, the call returns the empty series and raises nothing.
\<close>

theorem short_series_gives_empty:
  assumes "bind1 ''window_size'' (PyInt 7) args kw = Inr (PyInt w)"
    and "0 < w" and "int (length (data a)) < w"
  shows "fst (calculate_moving_average a args kw) = Inr []"
  using calculate_moving_average_valid [OF assms(1,2)] assms(3) by simp

theorem short_series_gives_empty_witness:
  "bind1 ''window_size'' (PyInt 7) [PyInt 5] [] = Inr (PyInt 5)
   \<and> bind1 ''window_size'' (PyInt 7) [] [(''window_size'', PyInt 4)] = Inr (PyInt 4)
   \<and> bind1 ''window_size'' (PyInt 7) [] [] = Inr (PyInt 7)
   \<and> int (length (data three_points)) < 4
   \<and> fst (calculate_moving_average three_points [PyInt 5] []) = Inr []
   \<and> fst (calculate_moving_average three_points [] [(''window_size'', PyInt 4)]) = Inr []
   \<and> fst (calculate_moving_average three_points [] []) = Inr []"
proof -
  have b: "bind1 ''window_size'' (PyInt 7) [PyInt 5] [] = Inr (PyInt 5)"
    "bind1 ''window_size'' (PyInt 7) [] [(''window_size'', PyInt 4)] = Inr (PyInt 4)"
    "bind1 ''window_size'' (PyInt 7) [] [] = Inr (PyInt 7)"
    by (simp_all add: bind1_def)
  have l: "int (length (data three_points)) < 4" by (simp add: three_points_def)
  have "fst (calculate_moving_average three_points [PyInt 5] []) = Inr []"
    using short_series_gives_empty [OF b(1)] l by simp
  moreover have
    "fst (calculate_moving_average three_points [] [(''window_size'', PyInt 4)]) = Inr []"
    using short_series_gives_empty [OF b(2)] l by simp
  moreover have "fst (calculate_moving_average three_points [] []) = Inr []"
    using short_series_gives_empty [OF b(3)] l by simp
  ultimately show ?thesis using b l by simp
qed

section \<open>Shift and difference\<close>

lemma length_shift: "length (shift p s) = length s"
  by (auto simp: shift_def Let_def index_of_def values_of_def)

lemma shift_fwd_nth:
  assumes "i < length s"
  shows "shift 1 s ! i = (fst (s ! i), if i = 0 then None else snd (s ! (i - 1)))"
  using assms
  by (auto simp: shift_def Let_def index_of_def values_of_def nth_append)

lemma shift_back_nth:
  assumes "i < length s"
  shows "shift (- 1) s ! i = (fst (s ! i), if Suc i < length s then snd (s ! Suc i) else None)"
  using assms
  by (auto simp: shift_def Let_def index_of_def values_of_def nth_append)

lemma length_diff: "length (diff s) = length s"
  by (simp add: diff_def series_sub_def length_shift)

lemma diff_nth:
  assumes "i < length s"
  shows "diff s ! i = (fst (s ! i), if i = 0 then None else osub (snd (s ! i)) (snd (s ! (i - 1))))"
  using assms
  by (simp add: diff_def series_sub_def length_shift shift_fwd_nth osub_def split: option.splits)

lemma index_of_diff: "index_of (diff s) = index_of s"
  by (rule nth_equalityI) (simp_all add: index_of_def length_diff diff_nth)

lemma calculate_differential_eq:
  "calculate_differential a [] [] = (Inr (diff (moving_avg_data a)), a)"
  by (simp add: calculate_differential_def validate_args_def calculate_differential_body_def
      bind0_def)

text \<open>
  C8. The differential is computed from the stored moving average alone, whatever the
  data are: its entry 0 is missing and its entry at every position \<open>i \<ge> 1\<close> is
  \<open>smoothed[i] - smoothed[i-1]\<close>, over the index of the stored series.
\<close>

theorem differential_of_stored_series:
  "\<exists>r. fst (calculate_differential a [] []) = Inr r
       \<and> fst (calculate_differential (a\<lparr>data := d\<rparr>) [] []) = Inr r
       \<and> length r = length (moving_avg_data a)
       \<and> index_of r = index_of (moving_avg_data a)
       \<and> (0 < length r \<longrightarrow> snd (r ! 0) = None)
       \<and> (\<forall>i. 1 \<le> i \<and> i < length r \<longrightarrow>
              snd (r ! i) = osub (snd (moving_avg_data a ! i)) (snd (moving_avg_data a ! (i - 1))))"
proof -
  let ?m = "moving_avg_data a"
  have res: "fst (calculate_differential a [] []) = Inr (diff ?m)"
    and res': "fst (calculate_differential (a\<lparr>data := d\<rparr>) [] []) = Inr (diff ?m)"
    by (simp_all add: calculate_differential_eq)
  have len: "length (diff ?m) = length ?m" by (rule length_diff)
  have idx: "index_of (diff ?m) = index_of ?m" by (rule index_of_diff)
  have first: "0 < length (diff ?m) \<longrightarrow> snd (diff ?m ! 0) = None"
    by (simp add: length_diff diff_nth)
  have later: "\<forall>i. 1 \<le> i \<and> i < length (diff ?m) \<longrightarrow>
      snd (diff ?m ! i) = osub (snd (?m ! i)) (snd (?m ! (i - 1)))"
    by (simp add: length_diff diff_nth)
  from res res' len idx first later show ?thesis by blast
qed

theorem differential_of_stored_series_witness:
  "0 < length (moving_avg_data wave)
   \<and> (1 :: nat) \<le> 7 \<and> 7 < length (moving_avg_data wave)
   \<and> (\<exists>r. fst (calculate_differential wave [] []) = Inr r
          \<and> fst (calculate_differential (wave\<lparr>data := []\<rparr>) [] []) = Inr r
          \<and> snd (r ! 0) = None \<and> snd (r ! 7) = Some 1 \<and> snd (r ! 8) = Some (- 2))"
proof -
  have n: "length (moving_avg_data wave) = 10" by (simp add: wave_def)
  have d7: "osub (snd (moving_avg_data wave ! 7)) (snd (moving_avg_data wave ! (7 - 1))) = Some 1"
    by (simp add: wave_def osub_def)
  have d8: "osub (snd (moving_avg_data wave ! 8)) (snd (moving_avg_data wave ! (8 - 1)))
              = Some (- 2)"
    by (simp add: wave_def osub_def)
  from differential_of_stored_series [of wave "[]"] obtain r where
    r: "fst (calculate_differential wave [] []) = Inr r"
      "fst (calculate_differential (wave\<lparr>data := []\<rparr>) [] []) = Inr r"
      "length r = length (moving_avg_data wave)"
      "0 < length r \<longrightarrow> snd (r ! 0) = None"
      "\<forall>i. 1 \<le> i \<and> i < length r \<longrightarrow>
          snd (r ! i) = osub (snd (moving_avg_data wave ! i)) (snd (moving_avg_data wave ! (i - 1)))"
    by blast
  have "snd (r ! 0) = None" using r(3,4) n by simp
  moreover have "snd (r ! 7) = Some 1" using r(5) [rule_format, of 7] r(3) n d7 by simp
  moreover have "snd (r ! 8) = Some (- 2)" using r(5) [rule_format, of 8] r(3) n d8 by simp
  ultimately show ?thesis using r(1,2) n by auto
qed

section \<open>Extrema\<close>

lemma zip_as_map:
  assumes "length ys = length xs"
  shows "zip xs ys = map (\<lambda>i. (xs ! i, ys ! i)) [0..<length xs]"
  using assms by (intro nth_equalityI) simp_all

lemma select_rows:
  assumes "length keep = length s"
  shows "select s keep = rows_where s (\<lambda>i. snd (keep ! i))"
  by (simp add: select_def rows_where_def zip_as_map [OF assms] filter_map comp_def)

lemma olt_None: "olt None y = False" "olt x None = False"
  by (simp_all add: olt_def split: option.splits)

lemma maxima_mask_nth:
  assumes "i < length m"
  shows "snd (mask_and (series_lt (shift 1 m) m) (series_lt (shift (- 1) m) m) ! i)
           = strict_local_max m i"
  using assms
  by (auto simp: mask_and_def series_lt_def length_shift shift_fwd_nth shift_back_nth
      strict_local_max_def olt_None)

lemma minima_mask_nth:
  assumes "i < length m"
  shows "snd (mask_and (series_gt (shift 1 m) m) (series_gt (shift (- 1) m) m) ! i)
           = strict_local_min m i"
  using assms
  by (auto simp: mask_and_def series_gt_def length_shift shift_fwd_nth shift_back_nth
      strict_local_min_def olt_None)

lemma rows_where_cong:
  assumes "\<And>i. i < length m \<Longrightarrow> P i = Q i"
  shows "rows_where m P = rows_where m Q"
proof -
  have "filter P [0..<length m] = filter Q [0..<length m]"
    by (rule filter_cong) (simp_all add: assms)
  then show ?thesis by (simp add: rows_where_def)
qed

lemma find_maxima_rows:
  "find_maxima a [] [] = (Inr (rows_where (moving_avg_data a) (strict_local_max (moving_avg_data a))), a)"
proof -
  let ?m = "moving_avg_data a"
  let ?k = "mask_and (series_lt (shift 1 ?m) ?m) (series_lt (shift (- 1) ?m) ?m)"
  have "length ?k = length ?m"
    by (simp add: mask_and_def series_lt_def length_shift)
  then have "select ?m ?k = rows_where ?m (\<lambda>i. snd (?k ! i))" by (rule select_rows)
  also have "\<dots> = rows_where ?m (strict_local_max ?m)"
    by (rule rows_where_cong) (rule maxima_mask_nth)
  finally show ?thesis
    by (simp add: find_maxima_def validate_args_def find_maxima_body_def bind0_def Let_def)
qed

lemma find_minima_rows:
  "find_minima a [] [] = (Inr (rows_where (moving_avg_data a) (strict_local_min (moving_avg_data a))), a)"
proof -
  let ?m = "moving_avg_data a"
  let ?k = "mask_and (series_gt (shift 1 ?m) ?m) (series_gt (shift (- 1) ?m) ?m)"
  have "length ?k = length ?m"
    by (simp add: mask_and_def series_gt_def length_shift)
  then have "select ?m ?k = rows_where ?m (\<lambda>i. snd (?k ! i))" by (rule select_rows)
  also have "\<dots> = rows_where ?m (strict_local_min ?m)"
    by (rule rows_where_cong) (rule minima_mask_nth)
  finally show ?thesis
    by (simp add: find_minima_def validate_args_def find_minima_body_def bind0_def Let_def)
qed

lemma rows_where_none: "(\<And>i. i < length m \<Longrightarrow> \<not> P i) \<Longrightarrow> rows_where m P = []"
  by (simp add: rows_where_def filter_empty_conv)

lemma rows_where_mem:
  "row \<in> set (rows_where m P) \<longleftrightarrow> (\<exists>i<length m. P i \<and> row = m ! i)"
  by (auto simp: rows_where_def)

lemma in_index_rows_where:
  assumes "distinct (index_of m)" and "i < length m"
  shows "fst (m ! i) \<in> set (index_of (rows_where m P)) \<longleftrightarrow> P i"
proof
  assume "fst (m ! i) \<in> set (index_of (rows_where m P))"
  then obtain j where j: "j < length m" "P j" "fst (m ! i) = fst (m ! j)"
    by (auto simp: index_of_def rows_where_def)
  then have "index_of m ! i = index_of m ! j" using assms(2) by (simp add: index_of_def)
  moreover have "i < length (index_of m)" "j < length (index_of m)"
    using assms(2) j(1) by (simp_all add: index_of_def)
  ultimately have "i = j"
    using assms(1) by (simp add: nth_eq_iff_index_eq)
  then show "P i" using j(2) by simp
next
  assume "P i"
  then show "fst (m ! i) \<in> set (index_of (rows_where m P))"
    using assms(2) by (force simp: index_of_def rows_where_def)
qed

lemma olt_present: "olt x y \<Longrightarrow> x \<noteq> None \<and> y \<noteq> None"
  by (auto simp: olt_def split: option.splits)

lemma olt_asym: "olt x y \<Longrightarrow> \<not> olt y x"
  by (auto simp: olt_def split: option.splits)

text \<open>
  C7. \<open>findMaxima\<close> returns exactly the rows at the positions \<open>i\<close>, the first and the
  last excluded, where \<open>smoothed[i-1] < smoothed[i]\<close> and \<open>smoothed[i+1] < smoothed[i]\<close>,
  and \<open>findMinima\<close> those of the symmetric strict condition. When all the present values
  of the stored series are equal, both results are empty.
\<close>

theorem extrema_are_strict_interior:
  "fst (find_maxima a [] [])
     = Inr (rows_where (moving_avg_data a) (strict_local_max (moving_avg_data a)))
   \<and> fst (find_minima a [] [])
     = Inr (rows_where (moving_avg_data a) (strict_local_min (moving_avg_data a)))
   \<and> ((\<forall>i<length (moving_avg_data a).
          snd (moving_avg_data a ! i) = None \<or> snd (moving_avg_data a ! i) = Some c) \<longrightarrow>
        fst (find_maxima a [] []) = Inr [] \<and> fst (find_minima a [] []) = Inr [])"
proof -
  let ?m = "moving_avg_data a"
  have "rows_where ?m (strict_local_max ?m) = [] \<and> rows_where ?m (strict_local_min ?m) = []"
    if level: "\<forall>i<length ?m. snd (?m ! i) = None \<or> snd (?m ! i) = Some c"
  proof -
    have flat: "\<not> olt (snd (?m ! i)) (snd (?m ! j))" if "i < length ?m" "j < length ?m" for i j
      using level [rule_format, OF that(1)] level [rule_format, OF that(2)]
      by (auto simp: olt_def)
    have "\<not> strict_local_max ?m i" if "i < length ?m" for i
      using flat [of "i - 1" i] that by (auto simp: strict_local_max_def)
    moreover have "\<not> strict_local_min ?m i" if "i < length ?m" for i
      using flat [of i "i - 1"] that by (auto simp: strict_local_min_def)
    ultimately show ?thesis by (simp add: rows_where_none)
  qed
  then show ?thesis by (simp add: find_maxima_rows find_minima_rows)
qed

theorem extrema_are_strict_interior_witness:
  "list_all (\<lambda>row. snd row = None \<or> snd row = Some 5) (moving_avg_data level)
   \<and> fst (find_maxima level [] []) = Inr []
   \<and> fst (find_minima level [] []) = Inr []
   \<and> fst (find_maxima wave [] []) = Inr [(7, Some 4)]
   \<and> fst (find_minima wave [] []) = Inr [(8, Some 2)]"
proof -
  have all: "list_all (\<lambda>row. snd row = None \<or> snd row = Some 5) (moving_avg_data level)"
    by (simp add: level_def)
  then have flat: "\<forall>i<length (moving_avg_data level).
      snd (moving_avg_data level ! i) = None \<or> snd (moving_avg_data level ! i) = Some 5"
    by (simp add: list_all_length)
  have mx: "rows_where (moving_avg_data wave) (strict_local_max (moving_avg_data wave))
              = [(7, Some 4)]"
    by code_simp
  have mn: "rows_where (moving_avg_data wave) (strict_local_min (moving_avg_data wave))
              = [(8, Some 2)]"
    by code_simp
  from extrema_are_strict_interior [of level 5] flat
  have "fst (find_maxima level [] []) = Inr [] \<and> fst (find_minima level [] []) = Inr []"
    by blast
  moreover from extrema_are_strict_interior [of wave 0] mx mn
  have "fst (find_maxima wave [] []) = Inr [(7, Some 4)]
      \<and> fst (find_minima wave [] []) = Inr [(8, Some 2)]"
    by simp
  ultimately show ?thesis using all by blast
qed

text \<open>
  C10. The series returned by \<open>findMaxima\<close> and \<open>findMinima\<close> hold no missing value;
  a position whose value or whose neighbour is missing is selected by neither; and no
  label is returned by both. The labels of the stored series are distinct.
\<close>

theorem extrema_present_and_disjoint:
  assumes "distinct (index_of (moving_avg_data a))"
  shows "\<exists>mx mn. fst (find_maxima a [] []) = Inr mx \<and> fst (find_minima a [] []) = Inr mn
           \<and> (\<forall>row \<in> set mx \<union> set mn. snd row \<noteq> None)
           \<and> (\<forall>i<length (moving_avg_data a).
                 (snd (moving_avg_data a ! i) = None
                  \<or> (0 < i \<and> snd (moving_avg_data a ! (i - 1)) = None)
                  \<or> (i + 1 < length (moving_avg_data a)
                      \<and> snd (moving_avg_data a ! (i + 1)) = None)) \<longrightarrow>
                 fst (moving_avg_data a ! i) \<notin> set (index_of mx) \<union> set (index_of mn))
           \<and> set (index_of mx) \<inter> set (index_of mn) = {}"
proof -
  let ?m = "moving_avg_data a"
  let ?mx = "rows_where ?m (strict_local_max ?m)"
  let ?mn = "rows_where ?m (strict_local_min ?m)"
  have "snd row \<noteq> None" if "row \<in> set ?mx" for row
  proof -
    from that obtain i where "olt (snd (?m ! (i - 1))) (snd (?m ! i))" "row = ?m ! i"
      by (auto simp: rows_where_mem strict_local_max_def)
    then show ?thesis using olt_present by blast
  qed
  moreover have "snd row \<noteq> None" if "row \<in> set ?mn" for row
  proof -
    from that obtain i where "olt (snd (?m ! i)) (snd (?m ! (i - 1)))" "row = ?m ! i"
      by (auto simp: rows_where_mem strict_local_min_def)
    then show ?thesis using olt_present by blast
  qed
  ultimately have present: "\<forall>row \<in> set ?mx \<union> set ?mn. snd row \<noteq> None"
    by blast
  have gaps: "fst (?m ! i) \<notin> set (index_of ?mx) \<union> set (index_of ?mn)"
    if "i < length ?m"
      and "snd (?m ! i) = None \<or> (0 < i \<and> snd (?m ! (i - 1)) = None)
           \<or> (i + 1 < length ?m \<and> snd (?m ! (i + 1)) = None)" for i
    using that
    by (auto simp: in_index_rows_where [OF assms] strict_local_max_def strict_local_min_def
        olt_None)
  have "l \<notin> set (index_of ?mn)" if "l \<in> set (index_of ?mx)" for l
  proof -
    from that obtain i where i: "i < length ?m" "strict_local_max ?m i" "l = fst (?m ! i)"
      by (auto simp: index_of_def rows_where_def)
    have "\<not> strict_local_min ?m i"
      using i(2) by (auto simp: strict_local_max_def strict_local_min_def dest: olt_asym)
    then show ?thesis using i(1,3) by (simp add: in_index_rows_where [OF assms])
  qed
  then have disjoint: "set (index_of ?mx) \<inter> set (index_of ?mn) = {}" by blast
  have "fst (find_maxima a [] []) = Inr ?mx" "fst (find_minima a [] []) = Inr ?mn"
    by (simp_all add: find_maxima_rows find_minima_rows)
  with present gaps disjoint show ?thesis by blast
qed

theorem extrema_present_and_disjoint_witness:
  "distinct (index_of (moving_avg_data wave))
   \<and> (\<exists>mx mn. fst (find_maxima wave [] []) = Inr mx \<and> fst (find_minima wave [] []) = Inr mn
          \<and> (\<forall>row \<in> set mx \<union> set mn. snd row \<noteq> None)
          \<and> fst (moving_avg_data wave ! 6) \<notin> set (index_of mx) \<union> set (index_of mn)
          \<and> set (index_of mx) \<inter> set (index_of mn) = {})"
proof -
  have d: "distinct (index_of (moving_avg_data wave))"
    by (simp add: wave_def index_of_def)
  have six: "6 < length (moving_avg_data wave)"
    and gap: "0 < (6 :: nat) \<and> snd (moving_avg_data wave ! (6 - 1)) = None"
    by (simp_all add: wave_def)
  from extrema_present_and_disjoint [OF d] obtain mx mn where
    r: "fst (find_maxima wave [] []) = Inr mx" "fst (find_minima wave [] []) = Inr mn"
      "\<forall>row \<in> set mx \<union> set mn. snd row \<noteq> None"
      "\<forall>i<length (moving_avg_data wave).
         (snd (moving_avg_data wave ! i) = None
          \<or> (0 < i \<and> snd (moving_avg_data wave ! (i - 1)) = None)
          \<or> (i + 1 < length (moving_avg_data wave)
              \<and> snd (moving_avg_data wave ! (i + 1)) = None)) \<longrightarrow>
         fst (moving_avg_data wave ! i) \<notin> set (index_of mx) \<union> set (index_of mn)"
      "set (index_of mx) \<inter> set (index_of mn) = {}"
    by blast
  have "fst (moving_avg_data wave ! 6) \<notin> set (index_of mx) \<union> set (index_of mn)"
    using r(4) [rule_format, OF six] gap by blast
  with d r(1,2,3,5) show ?thesis by blast
qed

section \<open>Autocorrelation\<close>

lemma length_acovf: "length (acovf x) = length x"
  by (simp add: acovf_def Let_def)

lemma acovf_nth:
  assumes "k < length x"
  shows "acovf x ! k =
           (\<Sum>t\<leftarrow>[k..<length x]. (x ! t - mean x) * (x ! (t - k) - mean x)) / real (length x)"
proof -
  let ?xo = "map (\<lambda>v. v - mean x) x"
  have "map (\<lambda>t. ?xo ! t * ?xo ! (t - k)) [k..<length x]
      = map (\<lambda>t. (x ! t - mean x) * (x ! (t - k) - mean x)) [k..<length x]"
  proof (rule map_cong [OF refl])
    fix t assume "t \<in> set [k..<length x]"
    then have "t < length x" "t - k < length x" by auto
    then show "?xo ! t * ?xo ! (t - k) = (x ! t - mean x) * (x ! (t - k) - mean x)"
      by (simp only: nth_map)
  qed
  then have "(\<Sum>t\<leftarrow>[k..<length x]. ?xo ! t * ?xo ! (t - k))
      = (\<Sum>t\<leftarrow>[k..<length x]. (x ! t - mean x) * (x ! (t - k) - mean x))"
    by (rule arg_cong)
  moreover have "acovf x ! k = (\<Sum>t\<leftarrow>[k..<length x]. ?xo ! t * ?xo ! (t - k)) / real (length x)"
    using assms by (simp add: acovf_def Let_def)
  ultimately show ?thesis by (simp only:)
qed

lemma acf_coefficient:
  assumes "k < length x"
  shows "fdiv (acovf x ! k) (acovf x ! 0) = autocorr x k"
proof -
  have n: "0 < length x" using assms by (cases x) simp_all
  have sq: "map (\<lambda>t. (x ! t - mean x) * (x ! (t - 0) - mean x)) [0..<length x]
      = map (\<lambda>t. (x ! t - mean x) ^ 2) [0..<length x]"
    by (simp add: power2_eq_square)
  have c0: "acovf x ! 0 = (\<Sum>t\<leftarrow>[0..<length x]. (x ! t - mean x) ^ 2) / real (length x)"
    unfolding acovf_nth [OF n] sq ..
  have nz: "real (length x) \<noteq> 0" using n by simp
  show ?thesis
    unfolding fdiv_def autocorr_def Let_def c0 acovf_nth [OF assms] mean_def [symmetric]
    using nz by simp
qed

lemma acf_nonempty:
  assumes "x \<noteq> []"
  shows "acf x nlags = Inr (map (\<lambda>c. fdiv c (acovf x ! 0)) (py_slice_to (nlags + 1) (acovf x)))"
proof -
  have "acovf x \<noteq> []" using assms length_acovf [of x] by auto
  then obtain c0 cs where "acovf x = c0 # cs" by (cases "acovf x") auto
  then show ?thesis by (simp add: acf_def)
qed

lemma length_py_slice_to_le: "length (py_slice_to stop xs) \<le> length xs"
  by (simp add: py_slice_to_def)

lemma isnull_all_dropna: "isnull_all s \<Longrightarrow> dropna s = []"
  by (induction s) (auto simp: isnull_all_def dropna_def)

lemma length_dropna_le: "length (dropna s) \<le> length s"
  by (simp add: dropna_def)

text \<open>The shape of every result of the autocorrelation.\<close>

lemma calculate_auto_correlation_few:
  assumes "length (dropna (moving_avg_data a)) < 2"
  shows "calculate_auto_correlation a lags =
           (Inr (zip (index_of (moving_avg_data a))
                     (replicate (length (moving_avg_data a)) None)), a)"
  using assms
  by (simp add: calculate_auto_correlation_def Let_def Series_def index_of_def)

lemma calculate_auto_correlation_many:
  fixes a :: analyzer and lags :: "int option"
  assumes "2 \<le> length (dropna (moving_avg_data a))"
  defines "m \<equiv> moving_avg_data a"
  defines "x \<equiv> map the (values_of (dropna m))"
  defines "lags' \<equiv> (case lags of None \<Rightarrow> int (length (dropna m)) - 1 | Some l \<Rightarrow> l)"
  defines "av \<equiv> map (\<lambda>c. fdiv c (acovf x ! 0)) (py_slice_to (lags' + 1) (acovf x))"
  shows "calculate_auto_correlation a lags =
           (Inr (zip (index_of m) (replicate (length m - length (tl av)) None @ tl av)), a)"
    and "length (tl av) < length (dropna m)"
proof -
  have v: "length x = length (dropna m)" by (simp add: x_def values_of_def)
  have x: "x \<noteq> []" using assms(1) v m_def by auto
  have notall: "\<not> isnull_all m" using assms(1) isnull_all_dropna [of m] m_def by auto
  have acf: "acf x lags' = Inr av" unfolding av_def by (rule acf_nonempty [OF x])
  have "length av \<le> length x"
    using length_py_slice_to_le [of "lags' + 1" "acovf x"] by (simp add: av_def length_acovf)
  then show k: "length (tl av) < length (dropna m)" using v x by (cases x) auto
  have kn: "length (tl av) < length m" using k length_dropna_le [of m] by simp
  have pad: "Series (replicate (nat (int (length m) - int (length (tl av)))) None)
                    (py_slice_to (int (length m) - int (length (tl av))) (index_of m))
               = Inr (zip (take (length m - length (tl av)) (index_of m))
                          (replicate (length m - length (tl av)) None))"
    using kn by (simp add: Series_def py_slice_to_def index_of_def nat_diff_distrib')
  have co: "Series (tl av) (py_slice_to (int (length (tl av))) (index_of (dropna m)))
              = Inr (zip (take (length (tl av)) (index_of (dropna m))) (tl av))"
    using k by (simp add: Series_def py_slice_to_def index_of_def)
  have fin: "set_index (zip (take (length m - length (tl av)) (index_of m))
                          (replicate (length m - length (tl av)) None)
                        @ zip (take (length (tl av)) (index_of (dropna m))) (tl av))
                       (index_of m)
               = Inr (zip (index_of m) (replicate (length m - length (tl av)) None @ tl av))"
    using k kn by (simp add: set_index_def index_of_def values_of_def)
  show "calculate_auto_correlation a lags =
           (Inr (zip (index_of m) (replicate (length m - length (tl av)) None @ tl av)), a)"
    using assms(1) notall acf pad co fin
    unfolding calculate_auto_correlation_def
    by (simp add: Let_def m_def [symmetric] x_def [symmetric] lags'_def [symmetric])
qed


lemma acf_values_take:
  fixes x :: "real list"
  assumes "0 \<le> stop"
  shows "map (\<lambda>c. fdiv c (acovf x ! 0)) (py_slice_to stop (acovf x))
           = map (autocorr x) [0..<min (nat stop) (length x)]"
proof (rule nth_equalityI)
  show "length (map (\<lambda>c. fdiv c (acovf x ! 0)) (py_slice_to stop (acovf x)))
          = length (map (autocorr x) [0..<min (nat stop) (length x)])"
    using assms by (simp add: py_slice_to_def length_acovf min.commute)
next
  fix i assume "i < length (map (\<lambda>c. fdiv c (acovf x ! 0)) (py_slice_to stop (acovf x)))"
  then have i: "i < nat stop" "i < length x"
    using assms by (simp_all add: py_slice_to_def length_acovf)
  then show "map (\<lambda>c. fdiv c (acovf x ! 0)) (py_slice_to stop (acovf x)) ! i
               = map (autocorr x) [0..<min (nat stop) (length x)] ! i"
    using assms by (simp add: py_slice_to_def length_acovf acf_coefficient)
qed

text \<open>
  C2. The claim: an explicit \<open>lags\<close> that is not a positive integer raises the
  decorator's error before any computation. The method carries no decorator: with
  \<open>lags = 0\<close> it returns a series of missing values, and with \<open>lags = -3\<close> it returns a
  coefficient, on an analyzer with four valid smoothed values.
\<close>

theorem auto_correlation_lags_not_validated:
  "\<not> valid_lags (Some 0) \<and> \<not> valid_lags (Some (- 3))
   \<and> 2 \<le> length (dropna (moving_avg_data ten_points))
   \<and> fst (calculate_auto_correlation ten_points (Some 0))
       = Inr [(0, None), (1, None), (2, None), (3, None), (4, None), (5, None), (6, None),
              (7, None), (8, None), (9, None)]
   \<and> fst (calculate_auto_correlation ten_points (Some (- 3)))
       = Inr [(0, None), (1, None), (2, None), (3, None), (4, None), (5, None), (6, None),
              (7, None), (8, None), (9, Some (1 / 4))]"
  by code_simp

text \<open>
  C3, as the claim states it, fails: the leading missing positions are as many as the
  missing smoothed entries. The stored series of the ten observations has six missing
  entries and four valid ones; the result has seven leading missing positions.
\<close>

theorem autocorrelation_padding_counterexample:
  "length (dropna (moving_avg_data ten_points)) = 4
   \<and> length (filter (\<lambda>row. isnull (snd row)) (moving_avg_data ten_points)) = 6
   \<and> fst (calculate_auto_correlation ten_points None)
       = Inr [(0, None), (1, None), (2, None), (3, None), (4, None), (5, None), (6, None),
              (7, Some (1 / 4)), (8, Some (- 3 / 10)), (9, Some (- 9 / 20))]"
  by code_simp

text \<open>
  C3, amended. For a stored series with at least two valid values and \<open>lags\<close> left out or
  a positive integer, the result is over the full index; with \<open>v\<close> the number of valid
  values and \<open>k = v - 1\<close> (or \<open>min lags (v - 1)\<close>), its last \<open>k\<close> positions hold the
  coefficients of the lags \<open>1 .. k\<close> of the valid values, the coefficient of lag 0 being
  dropped, and its leading positions, all but the last \<open>k\<close>, are missing: at least one
  more than the missing smoothed entries.
\<close>

theorem autocorrelation_alignment:
  fixes a :: analyzer and lags :: "int option"
  assumes "2 \<le> length (dropna (moving_avg_data a))" and "valid_lags lags"
  defines "m \<equiv> moving_avg_data a"
  defines "x \<equiv> map the (values_of (dropna m))"
  defines "k \<equiv> coefficient_count (length x) lags"
  shows "\<exists>r. fst (calculate_auto_correlation a lags) = Inr r
           \<and> index_of r = index_of m
           \<and> (\<forall>j<length m - k. snd (r ! j) = None)
           \<and> (\<forall>j<k. snd (r ! (length m - k + j)) = autocorr x (Suc j))
           \<and> length m - length x < length m - k"
proof -
  define lags' where
    "lags' = (case lags of None \<Rightarrow> int (length (dropna m)) - 1 | Some l \<Rightarrow> l)"
  define av where "av = map (\<lambda>c. fdiv c (acovf x ! 0)) (py_slice_to (lags' + 1) (acovf x))"
  have v: "length x = length (dropna m)" by (simp add: x_def values_of_def)
  have v2: "2 \<le> length x" using assms(1) v m_def by simp
  have pos: "0 \<le> lags' + 1" and cnt: "min (nat (lags' + 1)) (length x) = Suc k"
    using assms(2) v v2
    by (auto simp: lags'_def k_def coefficient_count_def valid_lags_def split: option.splits)
  have av: "av = map (autocorr x) [0..<Suc k]"
    unfolding av_def acf_values_take [OF pos] cnt ..
  have tl_av: "tl av = map (autocorr x \<circ> Suc) [0..<k]"
    unfolding av by (rule nth_equalityI) (simp_all add: nth_tl del: upt_Suc)
  have kx: "k < length x" using cnt by linarith
  have kn: "k < length m" using kx v length_dropna_le [of m] by simp
  let ?r = "zip (index_of m) (replicate (length m - k) None @ tl av)"
  have many: "calculate_auto_correlation a lags =
      (Inr (zip (index_of m) (replicate (length m - length (tl av)) None @ tl av)), a)"
    using calculate_auto_correlation_many(1) [OF assms(1), of lags]
    unfolding av_def lags'_def x_def m_def .
  have "length (tl av) = k" by (simp add: tl_av)
  with many have res: "fst (calculate_auto_correlation a lags) = Inr ?r" by simp
  have len: "length (replicate (length m - k) None @ tl av) = length (index_of m)"
    using kn by (simp add: tl_av index_of_def)
  have idx: "index_of ?r = index_of m"
    using len by (simp add: index_of_def)
  have lead: "snd (?r ! j) = None" if "j < length m - k" for j
    using that len by (simp add: index_of_def nth_append)
  have tail: "snd (?r ! (length m - k + j)) = autocorr x (Suc j)" if "j < k" for j
  proof -
    have pos: "length m - k + j < length (index_of m)"
      using that kn by (simp add: index_of_def)
    have "snd (?r ! (length m - k + j))
            = (replicate (length m - k) None @ tl av) ! (length m - k + j)"
      using pos len by simp
    also have "\<dots> = tl av ! j"
      using nth_append_length_plus [of "replicate (length m - k) None" "tl av" j]
      by (simp only: length_replicate)
    also have "\<dots> = autocorr x (Suc j)" using that by (simp add: tl_av)
    finally show ?thesis .
  qed
  have more: "length m - length x < length m - k"
    using kx v length_dropna_le [of m] by linarith
  from res idx lead tail more show ?thesis by blast
qed

theorem autocorrelation_alignment_witness:
  "2 \<le> length (dropna (moving_avg_data ten_points))
   \<and> valid_lags None
   \<and> (\<exists>r. fst (calculate_auto_correlation ten_points None) = Inr r
          \<and> index_of r = index_of (moving_avg_data ten_points)
          \<and> snd (r ! 6) = None
          \<and> snd (r ! 7) = Some (1 / 4)
          \<and> snd (r ! 9) = Some (- 9 / 20))"
proof -
  let ?m = "moving_avg_data ten_points"
  let ?x = "map the (values_of (dropna ?m))"
  have h1: "2 \<le> length (dropna ?m)"
    by (simp add: ten_points_def dropna_def isnull_def)
  have h2: "valid_lags None" by (simp add: valid_lags_def)
  have x: "?x = [4, 5, 6, 7]"
    by (simp add: ten_points_def dropna_def values_of_def isnull_def)
  have n: "length ?m = 10" by (simp add: ten_points_def)
  have c1: "autocorr [4, 5, 6, 7] (Suc 0) = Some (1 / 4)" by code_simp
  have c3: "autocorr [4, 5, 6, 7] (Suc 2) = Some (- 9 / 20)" by code_simp
  from autocorrelation_alignment [OF h1 h2] obtain r where
    r: "fst (calculate_auto_correlation ten_points None) = Inr r"
      "index_of r = index_of ?m"
      "\<forall>j<length ?m - coefficient_count (length ?x) None. snd (r ! j) = None"
      "\<forall>j<coefficient_count (length ?x) None.
          snd (r ! (length ?m - coefficient_count (length ?x) None + j)) = autocorr ?x (Suc j)"
    by blast
  have "snd (r ! 6) = None"
    using r(3) [rule_format, of 6] by (simp add: x n coefficient_count_def)
  moreover have "snd (r ! 7) = Some (1 / 4)"
    using r(4) [rule_format, of 0] c1 by (simp add: x n coefficient_count_def)
  moreover have "snd (r ! 9) = Some (- 9 / 20)"
    using r(4) [rule_format, of 2] c3 by (simp add: x n coefficient_count_def)
  ultimately show ?thesis using h1 h2 r(1,2) by blast
qed

section \<open>The stored state\<close>

lemma and_then_frame:
  assumes "snd r = a" and "\<And>v. snd (f v a) = a"
  shows "snd (and_then r f) = a"
  using assms by (cases r) (auto simp: and_then_def split: sum.splits)

lemma calculate_moving_average_frame: "snd (calculate_moving_average a args kw) = a"
  by (simp add: calculate_moving_average_def validate_args_def calculate_moving_average_body_def
      Let_def split: sum.splits bool.splits)

lemma calculate_differential_frame: "snd (calculate_differential a args kw) = a"
  by (simp add: calculate_differential_def validate_args_def calculate_differential_body_def
      split: sum.splits)

lemma calculate_auto_correlation_frame: "snd (calculate_auto_correlation a lags) = a"
  by (simp add: calculate_auto_correlation_def Let_def split: sum.splits)

lemma find_maxima_frame: "snd (find_maxima a args kw) = a"
  by (simp add: find_maxima_def validate_args_def find_maxima_body_def Let_def
      split: sum.splits)

lemma find_minima_frame: "snd (find_minima a args kw) = a"
  by (simp add: find_minima_def validate_args_def find_minima_body_def Let_def
      split: sum.splits)

lemma save_to_dataframe_frame: "snd (save_to_dataframe a result name) = a"
  by (simp add: save_to_dataframe_def validate_args_def save_to_dataframe_body_def)

lemma get_results_frame: "snd (get_results a) = a"
  unfolding get_results_def
  by (intro and_then_frame calculate_moving_average_frame calculate_differential_frame
      calculate_auto_correlation_frame find_maxima_frame find_minima_frame) simp

lemma after_call_frame: "after_call a c = a"
  by (cases c)
    (simp_all add: calculate_moving_average_frame calculate_differential_frame
      calculate_auto_correlation_frame find_maxima_frame find_minima_frame
      save_to_dataframe_frame get_results_frame)

lemma after_calls_frame: "after_calls a calls = a"
  unfolding after_calls_def by (induction calls) (simp_all add: after_call_frame)

lemma bind1_omitted: "bind1 name dflt [] [] = Inr dflt"
  by (simp add: bind1_def)

lemma init_result:
  "TimeSeriesAnalyzer_init kwd tf fetched =
     (case (if int (length (dropna fetched)) < 7 then Inr []
            else rolling_mean (PyInt 7) (dropna fetched)) of
        Inl e \<Rightarrow> Inl e
      | Inr s \<Rightarrow> Inr \<lparr>keyword = kwd, timeframe = tf, data = dropna fetched, moving_avg_data = s\<rparr>)"
  by (simp add: TimeSeriesAnalyzer_init_def Let_def load_data_def
      calculate_moving_average_valid [OF bind1_omitted] split: sum.splits)

lemma rolling_mean_total:
  assumes "0 \<le> w"
  shows "\<exists>r. rolling_mean (PyInt w) s = Inr r \<and> length r = length s \<and> index_of r = index_of s"
proof -
  let ?r = "map (\<lambda>j. (fst (s ! j), roll_mean (nat w) (window_at (nat w) (values_of s) j)))
                [0..<length s]"
  have "rolling_mean (PyInt w) s = Inr ?r" using assms by (simp add: rolling_mean_def)
  moreover have "index_of ?r = index_of s"
    by (rule nth_equalityI) (simp_all add: index_of_def)
  ultimately show ?thesis by simp
qed

text \<open>
  C9. A call of \<open>computeMovingAverage\<close>, with any arguments, leaves the analyzer as it
  was, and so does every sequence of calls of its methods. The constructor stores the
  moving average of the default window, which is what a call without arguments returns.
\<close>

theorem stored_series_written_by_constructor_only:
  "snd (calculate_moving_average a args kw) = a
   \<and> after_calls a calls = a
   \<and> (\<exists>b s. TimeSeriesAnalyzer_init kwd tf fetched = Inr b
          \<and> b = \<lparr>keyword = kwd, timeframe = tf, data = dropna fetched, moving_avg_data = s\<rparr>
          \<and> fst (calculate_moving_average b [] []) = Inr s
          \<and> after_calls b calls = b)"
proof -
  obtain s where s: "(if int (length (dropna fetched)) < 7 then Inr []
            else rolling_mean (PyInt 7) (dropna fetched)) = Inr s"
    using rolling_mean_total [of 7 "dropna fetched"]
    by (cases "int (length (dropna fetched)) < 7") auto
  let ?b = "\<lparr>keyword = kwd, timeframe = tf, data = dropna fetched, moving_avg_data = s\<rparr>"
  have "TimeSeriesAnalyzer_init kwd tf fetched = Inr ?b"
    by (simp only: init_result s sum.case)
  moreover have "fst (calculate_moving_average ?b [] []) = Inr s"
    using s by (auto simp: calculate_moving_average_valid [OF bind1_omitted] split: if_splits)
  ultimately show ?thesis
    by (simp add: calculate_moving_average_frame after_calls_frame)
qed

section \<open>The index of the derived series\<close>

lemma index_of_zip: "length vs = length idx \<Longrightarrow> index_of (zip idx vs) = idx"
  by (simp add: index_of_def)

lemma calculate_auto_correlation_index:
  "\<exists>r. calculate_auto_correlation a lags = (Inr r, a)
       \<and> index_of r = index_of (moving_avg_data a)"
proof (cases "length (dropna (moving_avg_data a)) < 2")
  case True
  then show ?thesis
    by (simp add: calculate_auto_correlation_few index_of_zip index_of_def)
next
  case False
  then have two: "2 \<le> length (dropna (moving_avg_data a))" by simp
  let ?m = "moving_avg_data a"
  from calculate_auto_correlation_many [OF two, of lags] obtain av :: "val list" where
    av: "calculate_auto_correlation a lags =
           (Inr (zip (index_of ?m) (replicate (length ?m - length (tl av)) None @ tl av)), a)"
      "length (tl av) < length (dropna ?m)"
    by (rule that)
  have "length (tl av) \<le> length ?m"
    using av(2) length_dropna_le [of ?m] by linarith
  then have "length (replicate (length ?m - length (tl av)) None @ tl av) = length (index_of ?m)"
    by (simp add: index_of_def)
  then have "index_of (zip (index_of ?m) (replicate (length ?m - length (tl av)) None @ tl av))
      = index_of ?m"
    by (rule index_of_zip)
  with av(1) show ?thesis by blast
qed

lemma subseq_rows_where: "subseq (index_of (rows_where m P)) (index_of m)"
proof -
  have "subseq (map (\<lambda>i. m ! i) (filter P [0..<length m])) (map (\<lambda>i. m ! i) [0..<length m])"
    by (intro subseq_map subseq_filter_left)
  then have "subseq (rows_where m P) m" by (simp add: rows_where_def map_nth)
  then show ?thesis unfolding index_of_def by (rule subseq_map)
qed

lemma index_of_dropna_sorted:
  "sorted_wrt (<) (index_of s) \<Longrightarrow> sorted_wrt (<) (index_of (dropna s))"
  by (induction s) (auto simp: index_of_def dropna_def)

lemma index_union_self: "index_union i i = i"
  by (simp add: index_union_def)

lemma index_union_sub:
  assumes "sorted_wrt (<) i" and "set j \<subseteq> set i"
  shows "index_union i j = i"
proof (cases "i = j \<or> j = []")
  case True
  then show ?thesis by (auto simp: index_union_def)
next
  case False
  then have "i \<noteq> []" using assms(2) by auto
  moreover have "sort (remdups (i @ j)) = i"
  proof (rule sorted_distinct_set_unique)
    show "set (sort (remdups (i @ j))) = set i" using assms(2) by auto
  qed (use assms(1) in \<open>simp_all add: strict_sorted_iff\<close>)
  ultimately show ?thesis using False by (simp add: index_union_def)
qed

lemma init_invariant:
  assumes "TimeSeriesAnalyzer_init kwd tf fetched = Inr a"
  shows "data a = dropna fetched"
    and "calculate_moving_average a [] [] = (Inr (moving_avg_data a), a)"
    and "7 \<le> length (data a) \<Longrightarrow> index_of (moving_avg_data a) = index_of (data a)"
proof -
  obtain s where s: "(if int (length (dropna fetched)) < 7 then Inr []
            else rolling_mean (PyInt 7) (dropna fetched)) = Inr s"
    using rolling_mean_total [of 7 "dropna fetched"]
    by (cases "int (length (dropna fetched)) < 7") auto
  have a: "a = \<lparr>keyword = kwd, timeframe = tf, data = dropna fetched, moving_avg_data = s\<rparr>"
    using assms by (simp only: init_result s sum.case sum.inject)
  show "data a = dropna fetched" by (simp add: a)
  show "calculate_moving_average a [] [] = (Inr (moving_avg_data a), a)"
    using s by (auto simp: a calculate_moving_average_valid [OF bind1_omitted] split: if_splits)
  show "index_of (moving_avg_data a) = index_of (data a)" if "7 \<le> length (data a)"
    using that s rolling_mean_total [of 7 "dropna fetched"] by (auto simp: a)
qed

text \<open>
  A column laid on the index of its own series keeps its values; the rows selected from
  a series, laid on the index of that series, leave every other cell missing.
\<close>

lemma reindex_self:
  assumes "distinct (index_of s)"
  shows "reindex s (index_of s) = values_of s"
proof (rule nth_equalityI)
  show "length (reindex s (index_of s)) = length (values_of s)"
    by (simp add: reindex_def index_of_def values_of_def)
next
  fix i assume "i < length (reindex s (index_of s))"
  then have i: "i < length s" by (simp add: reindex_def index_of_def)
  then have "(fst (s ! i), snd (s ! i)) \<in> set s" by simp
  then have "map_of s (fst (s ! i)) = Some (snd (s ! i))"
    using assms unfolding index_of_def by (rule map_of_is_SomeI [rotated])
  then show "reindex s (index_of s) ! i = values_of s ! i"
    using i by (simp add: reindex_def index_of_def values_of_def)
qed

lemma reindex_same_index:
  assumes "distinct (index_of s)" and "index_of r = index_of s"
  shows "reindex r (index_of s) = values_of r"
  using reindex_self [of r] assms by simp

lemma distinct_index_rows_where:
  assumes "distinct (index_of m)"
  shows "distinct (index_of (rows_where m P))"
proof -
  have "distinct (filter P [0..<length m])" by simp
  moreover have "inj_on (\<lambda>i. fst (m ! i)) (set (filter P [0..<length m]))"
  proof (rule inj_onI)
    fix i j
    assume "i \<in> set (filter P [0..<length m])" "j \<in> set (filter P [0..<length m])"
      and eq: "fst (m ! i) = fst (m ! j)"
    then have ij: "i < length (index_of m)" "j < length (index_of m)"
      by (simp_all add: index_of_def)
    moreover have "index_of m ! i = index_of m ! j" using ij eq by (simp add: index_of_def)
    ultimately show "i = j" using assms by (simp add: nth_eq_iff_index_eq)
  qed
  ultimately have "distinct (map (\<lambda>i. fst (m ! i)) (filter P [0..<length m]))"
    by (simp add: distinct_map)
  then show ?thesis by (simp add: index_of_def rows_where_def comp_def)
qed

lemma reindex_rows_where:
  assumes "distinct (index_of m)"
  shows "reindex (rows_where m P) (index_of m)
           = map (\<lambda>i. if P i then snd (m ! i) else None) [0..<length m]"
proof (rule nth_equalityI)
  show "length (reindex (rows_where m P) (index_of m))
          = length (map (\<lambda>i. if P i then snd (m ! i) else None) [0..<length m])"
    by (simp add: reindex_def index_of_def)
next
  fix i assume "i < length (reindex (rows_where m P) (index_of m))"
  then have i: "i < length m" by (simp add: reindex_def index_of_def)
  have "map_of (rows_where m P) (fst (m ! i)) = (if P i then Some (snd (m ! i)) else None)"
  proof (cases "P i")
    case True
    then have "(fst (m ! i), snd (m ! i)) \<in> set (rows_where m P)"
      using i by (auto simp: rows_where_mem)
    then have "map_of (rows_where m P) (fst (m ! i)) = Some (snd (m ! i))"
      using distinct_index_rows_where [OF assms, of P] unfolding index_of_def
      by (rule map_of_is_SomeI [rotated])
    then show ?thesis using True by simp
  next
    case False
    then have "fst (m ! i) \<notin> set (index_of (rows_where m P))"
      using in_index_rows_where [OF assms i, of P] by simp
    then have "map_of (rows_where m P) (fst (m ! i)) = None"
      by (simp add: map_of_eq_None_iff index_of_def)
    then show ?thesis using False by simp
  qed
  then show "reindex (rows_where m P) (index_of m) ! i
               = map (\<lambda>i. if P i then snd (m ! i) else None) [0..<length m] ! i"
    using i by (simp add: reindex_def index_of_def)
qed

lemma get_results_table:
  assumes ma: "calculate_moving_average a [] [] = (Inr (moving_avg_data a), a)"
    and inc: "sorted_wrt (<) (index_of (moving_avg_data a))"
  shows "\<exists>t ac. get_results a = (Inr t, a)
           \<and> calculate_auto_correlation a None = (Inr ac, a)
           \<and> t_index t = index_of (moving_avg_data a)
           \<and> t_columns t =
               [(''Moving Average'', values_of (moving_avg_data a)),
                (''Differential'', values_of (diff (moving_avg_data a))),
                (''Auto correlation'', values_of ac),
                (''Maxima'',
                   map (\<lambda>i. if strict_local_max (moving_avg_data a) i
                         then snd (moving_avg_data a ! i) else None)
                       [0..<length (moving_avg_data a)]),
                (''Minima'',
                   map (\<lambda>i. if strict_local_min (moving_avg_data a) i
                         then snd (moving_avg_data a ! i) else None)
                       [0..<length (moving_avg_data a)])]"
proof -
  let ?m = "moving_avg_data a"
  let ?mx = "rows_where ?m (strict_local_max ?m)"
  let ?mn = "rows_where ?m (strict_local_min ?m)"
  have dist: "distinct (index_of ?m)" using inc by (simp add: strict_sorted_iff)
  obtain ac where ac: "calculate_auto_correlation a None = (Inr ac, a)"
    "index_of ac = index_of ?m"
    using calculate_auto_correlation_index by blast
  let ?t = "DataFrame
          [(''Moving Average'', ?m),
           (''Differential'', diff ?m),
           (''Auto correlation'', ac),
           (''Maxima'', ?mx),
           (''Minima'', ?mn)]"
  have res: "get_results a = (Inr ?t, a)"
    by (simp add: get_results_def and_then_def ma calculate_differential_eq ac(1)
        find_maxima_rows find_minima_rows)
  have sub: "set (index_of ?mx) \<subseteq> set (index_of ?m)" "set (index_of ?mn) \<subseteq> set (index_of ?m)"
    using subseq_rows_where [of ?m] by (auto dest: list_emb_set)
  have un: "union_indexes [index_of ?m, index_of (diff ?m), index_of ac, index_of ?mx,
      index_of ?mn] = index_of ?m"
    by (simp add: union_indexes_def index_of_diff ac(2) index_union_self
        index_union_sub [OF inc sub(1)] index_union_sub [OF inc sub(2)])
  have idx: "t_index ?t = index_of ?m"
    using un by (simp add: DataFrame_def Let_def)
  have cols: "t_columns ?t =
      [(''Moving Average'', reindex ?m (index_of ?m)),
       (''Differential'', reindex (diff ?m) (index_of ?m)),
       (''Auto correlation'', reindex ac (index_of ?m)),
       (''Maxima'', reindex ?mx (index_of ?m)),
       (''Minima'', reindex ?mn (index_of ?m))]"
    using un by (simp add: DataFrame_def Let_def)
  have "t_columns ?t =
      [(''Moving Average'', values_of ?m),
       (''Differential'', values_of (diff ?m)),
       (''Auto correlation'', values_of ac),
       (''Maxima'', map (\<lambda>i. if strict_local_max ?m i then snd (?m ! i) else None)
                        [0..<length ?m]),
       (''Minima'', map (\<lambda>i. if strict_local_min ?m i then snd (?m ! i) else None)
                        [0..<length ?m])]"
    unfolding cols
    by (simp only: reindex_self [OF dist] reindex_same_index [OF dist index_of_diff]
        reindex_same_index [OF dist ac(2)] reindex_rows_where [OF dist])
  with res ac(1) idx show ?thesis by blast
qed

lemma selected_cells:
  assumes "distinct (index_of m)"
  shows "map (\<lambda>i. if P i then snd (m ! i) else None) [0..<length m]
           = map (\<lambda>i. if fst (m ! i) \<in> set (index_of (rows_where m P)) then snd (m ! i)
                         else None) [0..<length m]"
  by (rule map_cong [OF refl]) (simp add: in_index_rows_where [OF assms])

text \<open>
  C4, as the claim states it, fails: every derived series has the index of the original
  series. The moving average of three observations is the empty series, and the maxima
  of the ten observations of \<open>wave\<close> are a single row.
\<close>

theorem derived_series_index_counterexample:
  "fst (calculate_moving_average three_points [] []) = Inr []
   \<and> index_of [] \<noteq> index_of (data three_points)
   \<and> fst (find_maxima wave [] []) = Inr [(7, Some 4)]
   \<and> index_of [(7, Some 4)] \<noteq> index_of (data wave)"
  by code_simp

text \<open>
  C4, amended. For an analyzer built by the constructor from a series with strictly
  increasing labels, with at least 7 observations: the moving average of a positive
  window no longer than the data, the differential and the autocorrelation for any
  \<open>lags\<close> have exactly the index of the data; the series of maxima and of minima hold
  the selected rows only, so their index is a subsequence of the index of the data. The
  table of \<open>getResults\<close> has the index of the data, and its five columns are, in this
  order, the values of the moving average, of the differential and of the
  autocorrelation, and for the maxima and the minima the smoothed value at each label
  that the method returned and a missing cell at every other label.
\<close>

theorem derived_series_index:
  assumes "TimeSeriesAnalyzer_init kwd tf fetched = Inr a"
    and "7 \<le> length (data a)"
    and "sorted_wrt (<) (index_of fetched)"
  shows "(\<forall>args kw w.
            bind1 ''window_size'' (PyInt 7) args kw = Inr (PyInt w) \<and> 0 < w
              \<and> w \<le> int (length (data a)) \<longrightarrow>
            (\<exists>r. fst (calculate_moving_average a args kw) = Inr r
                 \<and> index_of r = index_of (data a)))
       \<and> (\<exists>r. fst (calculate_differential a [] []) = Inr r \<and> index_of r = index_of (data a))
       \<and> (\<forall>lags. \<exists>r. fst (calculate_auto_correlation a lags) = Inr r
                     \<and> index_of r = index_of (data a))
       \<and> (\<exists>r. fst (find_maxima a [] []) = Inr r \<and> subseq (index_of r) (index_of (data a)))
       \<and> (\<exists>r. fst (find_minima a [] []) = Inr r \<and> subseq (index_of r) (index_of (data a)))
       \<and> (\<exists>t ma df ac mx mn.
             fst (get_results a) = Inr t
             \<and> fst (calculate_moving_average a [] []) = Inr ma
             \<and> fst (calculate_differential a [] []) = Inr df
             \<and> fst (calculate_auto_correlation a None) = Inr ac
             \<and> fst (find_maxima a [] []) = Inr mx
             \<and> fst (find_minima a [] []) = Inr mn
             \<and> t_index t = index_of (data a)
             \<and> t_columns t =
                 [(''Moving Average'', values_of ma),
                  (''Differential'', values_of df),
                  (''Auto correlation'', values_of ac),
                  (''Maxima'',
                     map (\<lambda>i. if fst (ma ! i) \<in> set (index_of mx) then snd (ma ! i) else None)
                         [0..<length ma]),
                  (''Minima'',
                     map (\<lambda>i. if fst (ma ! i) \<in> set (index_of mn) then snd (ma ! i) else None)
                         [0..<length ma])])"
proof -
  note inv = init_invariant [OF assms(1)]
  let ?m = "moving_avg_data a"
  have idx: "index_of ?m = index_of (data a)" by (rule inv(3) [OF assms(2)])
  have inc: "sorted_wrt (<) (index_of ?m)"
    unfolding idx inv(1) by (rule index_of_dropna_sorted [OF assms(3)])
  have dist: "distinct (index_of ?m)" using inc by (simp add: strict_sorted_iff)
  have ma: "\<exists>r. fst (calculate_moving_average a args kw) = Inr r \<and> index_of r = index_of (data a)"
    if "bind1 ''window_size'' (PyInt 7) args kw = Inr (PyInt w)" "0 < w"
      "w \<le> int (length (data a))" for args kw w
    using calculate_moving_average_valid [OF that(1,2), of a] that(2,3)
      rolling_mean_total [of w "data a"]
    by auto
  have df: "\<exists>r. fst (calculate_differential a [] []) = Inr r \<and> index_of r = index_of (data a)"
    by (simp add: calculate_differential_eq index_of_diff idx)
  have ac: "\<exists>r. fst (calculate_auto_correlation a lags) = Inr r \<and> index_of r = index_of (data a)"
    for lags
    using calculate_auto_correlation_index [of a lags] idx by auto
  have mx: "\<exists>r. fst (find_maxima a [] []) = Inr r \<and> subseq (index_of r) (index_of (data a))"
    using subseq_rows_where [of ?m] by (simp add: find_maxima_rows idx)
  have mn: "\<exists>r. fst (find_minima a [] []) = Inr r \<and> subseq (index_of r) (index_of (data a))"
    using subseq_rows_where [of ?m] by (simp add: find_minima_rows idx)
  from get_results_table [OF inv(2) inc] obtain t ac' where
    t: "get_results a = (Inr t, a)" "calculate_auto_correlation a None = (Inr ac', a)"
      "t_index t = index_of ?m"
      "t_columns t =
         [(''Moving Average'', values_of ?m),
          (''Differential'', values_of (diff ?m)),
          (''Auto correlation'', values_of ac'),
          (''Maxima'', map (\<lambda>i. if strict_local_max ?m i then snd (?m ! i) else None)
                           [0..<length ?m]),
          (''Minima'', map (\<lambda>i. if strict_local_min ?m i then snd (?m ! i) else None)
                           [0..<length ?m])]"
    by blast
  let ?mx = "rows_where ?m (strict_local_max ?m)"
  let ?mn = "rows_where ?m (strict_local_min ?m)"
  have cols: "t_columns t =
         [(''Moving Average'', values_of ?m),
          (''Differential'', values_of (diff ?m)),
          (''Auto correlation'', values_of ac'),
          (''Maxima'', map (\<lambda>i. if fst (?m ! i) \<in> set (index_of ?mx) then snd (?m ! i)
                                  else None) [0..<length ?m]),
          (''Minima'', map (\<lambda>i. if fst (?m ! i) \<in> set (index_of ?mn) then snd (?m ! i)
                                  else None) [0..<length ?m])]"
    unfolding t(4)
    by (simp only: selected_cells [OF dist, of "strict_local_max ?m"]
        selected_cells [OF dist, of "strict_local_min ?m"])
  have "fst (get_results a) = Inr t" "fst (calculate_moving_average a [] []) = Inr ?m"
    "fst (calculate_differential a [] []) = Inr (diff ?m)"
    "fst (calculate_auto_correlation a None) = Inr ac'"
    "fst (find_maxima a [] []) = Inr ?mx" "fst (find_minima a [] []) = Inr ?mn"
    "t_index t = index_of (data a)"
    using t(1,2,3) idx
    by (simp_all add: inv(2) calculate_differential_eq find_maxima_rows find_minima_rows)
  with cols have tb: "\<exists>t ma df ac mx mn.
             fst (get_results a) = Inr t
             \<and> fst (calculate_moving_average a [] []) = Inr ma
             \<and> fst (calculate_differential a [] []) = Inr df
             \<and> fst (calculate_auto_correlation a None) = Inr ac
             \<and> fst (find_maxima a [] []) = Inr mx
             \<and> fst (find_minima a [] []) = Inr mn
             \<and> t_index t = index_of (data a)
             \<and> t_columns t =
                 [(''Moving Average'', values_of ma),
                  (''Differential'', values_of df),
                  (''Auto correlation'', values_of ac),
                  (''Maxima'',
                     map (\<lambda>i. if fst (ma ! i) \<in> set (index_of mx) then snd (ma ! i) else None)
                         [0..<length ma]),
                  (''Minima'',
                     map (\<lambda>i. if fst (ma ! i) \<in> set (index_of mn) then snd (ma ! i) else None)
                         [0..<length ma])]"
    by blast
  from ma df ac mx mn tb show ?thesis by blast
qed

theorem derived_series_index_witness:
  "TimeSeriesAnalyzer_init ''k'' ''t'' (data wave) = Inr wave
   \<and> 7 \<le> length (data wave)
   \<and> sorted_wrt (<) (index_of (data wave))
   \<and> bind1 ''window_size'' (PyInt 7) [PyInt 3] [] = Inr (PyInt 3)
   \<and> (\<exists>r. fst (calculate_moving_average wave [PyInt 3] []) = Inr r
          \<and> index_of r = [0, 1, 2, 3, 4, 5, 6, 7, 8, 9])
   \<and> (\<exists>r. fst (calculate_differential wave [] []) = Inr r
          \<and> index_of r = [0, 1, 2, 3, 4, 5, 6, 7, 8, 9])
   \<and> (\<exists>r. fst (calculate_auto_correlation wave (Some 2)) = Inr r
          \<and> index_of r = [0, 1, 2, 3, 4, 5, 6, 7, 8, 9])
   \<and> (\<exists>r. fst (find_maxima wave [] []) = Inr r
          \<and> subseq (index_of r) [0, 1, 2, 3, 4, 5, 6, 7, 8, 9])
   \<and> (\<exists>t. fst (get_results wave) = Inr t
          \<and> t_index t = [0, 1, 2, 3, 4, 5, 6, 7, 8, 9]
          \<and> t_columns t =
              [(''Moving Average'',
                  [None, None, None, None, None, None, Some 3, Some 4, Some 2, Some 3]),
               (''Differential'',
                  [None, None, None, None, None, None, None, Some 1, Some (- 2), Some 1]),
               (''Auto correlation'',
                  [None, None, None, None, None, None, None, Some (- 1 / 2), Some 0, Some 0]),
               (''Maxima'',
                  [None, None, None, None, None, None, None, Some 4, None, None]),
               (''Minima'',
                  [None, None, None, None, None, None, None, None, Some 2, None])])"
proof -
  have i: "TimeSeriesAnalyzer_init ''k'' ''t'' (data wave) = Inr wave" by code_simp
  have l: "7 \<le> length (data wave)" by (simp add: wave_def)
  have s: "sorted_wrt (<) (index_of (data wave))" by (simp add: wave_def index_of_def)
  have b: "bind1 ''window_size'' (PyInt 7) [PyInt 3] [] = Inr (PyInt 3)"
    by (simp add: bind1_def)
  have w: "(0 :: int) < 3 \<and> 3 \<le> int (length (data wave))" by (simp add: wave_def)
  have d: "index_of (data wave) = [0, 1, 2, 3, 4, 5, 6, 7, 8, 9]"
    by (simp add: wave_def index_of_def)
  note inst = derived_series_index [OF i l s]
  have ma: "fst (calculate_moving_average wave [] [])
      = Inr [(0, None), (1, None), (2, None), (3, None), (4, None), (5, None),
             (6, Some 3), (7, Some 4), (8, Some 2), (9, Some 3)]"
    by code_simp
  have df: "fst (calculate_differential wave [] [])
      = Inr [(0, None), (1, None), (2, None), (3, None), (4, None), (5, None),
             (6, None), (7, Some 1), (8, Some (- 2)), (9, Some 1)]"
    by code_simp
  have ac: "fst (calculate_auto_correlation wave None)
      = Inr [(0, None), (1, None), (2, None), (3, None), (4, None), (5, None),
             (6, None), (7, Some (- 1 / 2)), (8, Some 0), (9, Some 0)]"
    by code_simp
  have mx: "fst (find_maxima wave [] []) = Inr [(7, Some 4)]" by code_simp
  have mn: "fst (find_minima wave [] []) = Inr [(8, Some 2)]" by code_simp
  from inst obtain t ma' df' ac' mx' mn' where
    t: "fst (get_results wave) = Inr t"
      "fst (calculate_moving_average wave [] []) = Inr ma'"
      "fst (calculate_differential wave [] []) = Inr df'"
      "fst (calculate_auto_correlation wave None) = Inr ac'"
      "fst (find_maxima wave [] []) = Inr mx'"
      "fst (find_minima wave [] []) = Inr mn'"
      "t_index t = index_of (data wave)"
      "t_columns t =
                 [(''Moving Average'', values_of ma'),
                  (''Differential'', values_of df'),
                  (''Auto correlation'', values_of ac'),
                  (''Maxima'',
                     map (\<lambda>i. if fst (ma' ! i) \<in> set (index_of mx') then snd (ma' ! i) else None)
                         [0..<length ma']),
                  (''Minima'',
                     map (\<lambda>i. if fst (ma' ! i) \<in> set (index_of mn') then snd (ma' ! i) else None)
                         [0..<length ma'])]"
    by blast
  have eqs: "ma' = [(0, None), (1, None), (2, None), (3, None), (4, None), (5, None),
             (6, Some 3), (7, Some 4), (8, Some 2), (9, Some 3)]"
    "df' = [(0, None), (1, None), (2, None), (3, None), (4, None), (5, None),
             (6, None), (7, Some 1), (8, Some (- 2)), (9, Some 1)]"
    "ac' = [(0, None), (1, None), (2, None), (3, None), (4, None), (5, None),
             (6, None), (7, Some (- 1 / 2)), (8, Some 0), (9, Some 0)]"
    "mx' = [(7, Some 4)]" "mn' = [(8, Some 2)]"
    using t(2-6) ma df ac mx mn by simp_all
  have cols: "t_columns t =
              [(''Moving Average'',
                  [None, None, None, None, None, None, Some 3, Some 4, Some 2, Some 3]),
               (''Differential'',
                  [None, None, None, None, None, None, None, Some 1, Some (- 2), Some 1]),
               (''Auto correlation'',
                  [None, None, None, None, None, None, None, Some (- 1 / 2), Some 0, Some 0]),
               (''Maxima'',
                  [None, None, None, None, None, None, None, Some 4, None, None]),
               (''Minima'',
                  [None, None, None, None, None, None, None, None, Some 2, None])]"
    unfolding t(8) eqs by (simp add: values_of_def index_of_def upt_conv_Cons)
  have tb: "\<exists>t. fst (get_results wave) = Inr t
          \<and> t_index t = [0, 1, 2, 3, 4, 5, 6, 7, 8, 9]
          \<and> t_columns t =
              [(''Moving Average'',
                  [None, None, None, None, None, None, Some 3, Some 4, Some 2, Some 3]),
               (''Differential'',
                  [None, None, None, None, None, None, None, Some 1, Some (- 2), Some 1]),
               (''Auto correlation'',
                  [None, None, None, None, None, None, None, Some (- 1 / 2), Some 0, Some 0]),
               (''Maxima'',
                  [None, None, None, None, None, None, None, Some 4, None, None]),
               (''Minima'',
                  [None, None, None, None, None, None, None, None, Some 2, None])]"
    using t(1,7) cols d by auto
  show ?thesis
    using inst b w i l s tb unfolding d by blast
qed

end
